theory Spec2Isabelle
  imports Complex_Main "HOL-Library.Log_Nat"
begin

section \<open>The Allbirds shoe search: \<open>allbirds-shoe-search/server.ts\<close>\<close>

text \<open>
  A shallow embedding of the search tool of \<open>server.ts\<close>: the query interpreter
  (\<open>resolveSize\<close>, \<open>parseQueryAndSize\<close>), the catalog cache (\<open>fetchAllProducts\<close>), the
  catalog filter (\<open>searchAllbirds\<close>) and the tool handler registered by \<open>createServer\<close>.

  Conventions of the embedding.
  \<^item> A JavaScript string is a \<open>string\<close> of ASCII characters. \<open>toLowerCase\<close>, the
    \<open>i\<close> flag of a regular expression, \<open>\s\<close>, \<open>\b\<close> and the digits act on ASCII
    as ECMAScript says; characters beyond ASCII are outside the model.
  \<^item> \<open>undefined\<close> and \<open>null\<close> are \<open>None\<close>.
  \<^item> A Number is \<open>NaN\<close>, an infinity or a finite value, kept as the rational it
    denotes; the sign of zero is dropped (no comparison of the program sees it).
    \<open>parseFloat\<close> rounds the decimal it reads to binary64, ties to even.
  \<^item> A rejected promise or a \<open>throw\<close> is the \<open>Inl\<close> of a sum.
  \<^item> The clock, the catalog endpoint and the image endpoint are the environment of
    a call; the module variables \<open>productsCache\<close> and \<open>cacheTime\<close> are the state.
\<close>

subsection \<open>Strings\<close>

definition isWhiteSpace :: "char \<Rightarrow> bool" where
  \<comment> \<open>\<open>\s\<close> and the white space \<open>parseFloat\<close> skips: TAB, LF, VT, FF, CR, SP\<close>
  "isWhiteSpace c = (c \<in> set [CHR 0x09, CHR 0x0A, CHR 0x0B, CHR 0x0C, CHR 0x0D, CHR 0x20])"

definition toLowerChar :: "char \<Rightarrow> char" where
  "toLowerChar c =
     (case map_of (zip ''ABCDEFGHIJKLMNOPQRSTUVWXYZ'' ''abcdefghijklmnopqrstuvwxyz'') c of
        Some l \<Rightarrow> l
      | None \<Rightarrow> c)"

definition toLowerCase :: "string \<Rightarrow> string" where
  "toLowerCase s = map toLowerChar s"

definition toUpperChar :: "char \<Rightarrow> char" where
  "toUpperChar c =
     (case map_of (zip ''abcdefghijklmnopqrstuvwxyz'' ''ABCDEFGHIJKLMNOPQRSTUVWXYZ'') c of
        Some u \<Rightarrow> u
      | None \<Rightarrow> c)"

definition digitValue :: "char \<Rightarrow> nat option" where
  "digitValue c = map_of (zip ''0123456789'' [0, 1, 2, 3, 4, 5, 6, 7, 8, 9]) c"

definition isDigit :: "char \<Rightarrow> bool" where
  "isDigit c = (digitValue c \<noteq> None)"

fun digitsValue :: "nat \<Rightarrow> string \<Rightarrow> nat" where
  "digitsValue acc [] = acc"
| "digitsValue acc (c # cs) =
     digitsValue (10 * acc + (case digitValue c of Some d \<Rightarrow> d | None \<Rightarrow> 0)) cs"

text \<open>
  \<open>s.split(/\s+/)\<close>: the pieces between the maximal runs of white space. A run at
  the start or at the end of \<open>s\<close> leaves an empty piece there, and the empty
  string splits into one empty piece.
\<close>

fun split_ws :: "string \<Rightarrow> string list" where
  "split_ws [] = [[]]"
| "split_ws (c # cs) =
     (if isWhiteSpace c then
        (case cs of
           [] \<Rightarrow> [] # split_ws cs
         | d # _ \<Rightarrow> if isWhiteSpace d then split_ws cs else [] # split_ws cs)
      else
        (case split_ws cs of
           [] \<Rightarrow> [[c]]
         | p # ps \<Rightarrow> (c # p) # ps))"

subsection \<open>Numbers\<close>

datatype Number = NaN | Num rat | PosInfinity | NegInfinity

definition isNaN :: "Number \<Rightarrow> bool" where
  "isNaN n = (case n of NaN \<Rightarrow> True | _ \<Rightarrow> False)"

definition num_ge :: "Number \<Rightarrow> rat \<Rightarrow> bool" where
  \<comment> \<open>\<open>n >= k\<close>\<close>
  "num_ge n k = (case n of NaN \<Rightarrow> False | Num x \<Rightarrow> k \<le> x | PosInfinity \<Rightarrow> True | NegInfinity \<Rightarrow> False)"

definition num_le :: "Number \<Rightarrow> rat \<Rightarrow> bool" where
  \<comment> \<open>\<open>n <= k\<close>\<close>
  "num_le n k = (case n of NaN \<Rightarrow> False | Num x \<Rightarrow> x \<le> k | PosInfinity \<Rightarrow> False | NegInfinity \<Rightarrow> True)"

definition Math_round :: "Number \<Rightarrow> Number" where
  \<comment> \<open>the nearest integer, a tie going up\<close>
  "Math_round n = (case n of Num x \<Rightarrow> Num (of_int \<lfloor>x + 1 / 2\<rfloor>) | _ \<Rightarrow> n)"

text \<open>
  The Number value for a positive rational \<open>p / q\<close> (ECMA-262, 6.1.6.1): the nearest
  binary64 value, a tie going to the even significand, and an infinity from
  \<open>2 ^ 1024\<close> on. \<open>floorLog2 p q\<close> is the binary exponent of \<open>p / q\<close>.
\<close>

definition pow2 :: "int \<Rightarrow> rat" where
  "pow2 k = (if 0 \<le> k then 2 ^ nat k else 1 / 2 ^ nat (- k))"

definition floorLog2 :: "nat \<Rightarrow> nat \<Rightarrow> int" where
  "floorLog2 p q =
     (let d = bitlen (int p) - bitlen (int q)
      in if pow2 d * of_nat q \<le> of_nat p then d else d - 1)"

definition roundTiesToEven :: "rat \<Rightarrow> int" where
  "roundTiesToEven x =
     (let n = \<lfloor>x\<rfloor>; r = x - of_int n
      in if r < 1 / 2 then n else if 1 / 2 < r then n + 1 else if even n then n else n + 1)"

definition numberValue :: "bool \<Rightarrow> nat \<Rightarrow> nat \<Rightarrow> Number" where
  "numberValue neg p q =
     (if p = 0 then Num 0
      else
        let e = max (floorLog2 p q) (- 1022);
            ulp = pow2 (e - 52);
            y = of_int (roundTiesToEven (of_nat p / (of_nat q * ulp))) * ulp
        in if pow2 1024 \<le> y then (if neg then NegInfinity else PosInfinity)
           else Num (if neg then - y else y))"

text \<open>
  \<open>parseFloat\<close>: skip leading white space, then read the longest prefix that is a
  decimal literal: a sign, then \<open>Infinity\<close> or digits with an optional fraction and
  an optional exponent. No such prefix gives \<open>NaN\<close>; what follows the prefix is
  ignored.
\<close>

definition stripSign :: "string \<Rightarrow> bool \<times> string" where
  "stripSign s =
     (case s of
        [] \<Rightarrow> (False, s)
      | c # r \<Rightarrow>
          if c = CHR ''-'' then (True, r)
          else if c = CHR ''+'' then (False, r)
          else (False, s))"

definition exponentPart :: "string \<Rightarrow> int" where
  "exponentPart s =
     (case s of
        [] \<Rightarrow> 0
      | c # r \<Rightarrow>
          if c = CHR ''e'' \<or> c = CHR ''E'' then
            (let (neg, r') = stripSign r; ds = takeWhile isDigit r'
             in if ds = [] then 0
                else if neg then - int (digitsValue 0 ds)
                else int (digitsValue 0 ds))
          else 0)"

definition parseFloat :: "string \<Rightarrow> Number" where
  "parseFloat s =
     (let (neg, t) = stripSign (dropWhile isWhiteSpace s)
      in if take 8 t = ''Infinity'' then (if neg then NegInfinity else PosInfinity)
         else
           let ip = takeWhile isDigit t;
               r1 = dropWhile isDigit t;
               (fp, r2) =
                 (case r1 of
                    [] \<Rightarrow> ([], r1)
                  | c # r \<Rightarrow>
                      if c = CHR ''.'' then (takeWhile isDigit r, dropWhile isDigit r)
                      else ([], r1))
           in if ip = [] \<and> fp = [] then NaN
              else
                let m = digitsValue 0 (ip @ fp);
                    e = exponentPart r2 - int (length fp)
                in if 0 \<le> e then numberValue neg (m * 10 ^ nat e) 1
                   else numberValue neg m (10 ^ nat (- e)))"

subsection \<open>The query interpreter\<close>

definition EU_TO_US_table :: "(int \<times> string) list" where
  "EU_TO_US_table =
     [(35, ''4''), (36, ''4.5''), (37, ''5''), (38, ''6''), (39, ''6.5''),
      (40, ''7''), (41, ''8''), (42, ''9''), (43, ''10''), (44, ''11''),
      (45, ''12''), (46, ''13''), (47, ''14''), (48, ''15'')]"

definition EU_TO_US :: "Number \<Rightarrow> string option" where
  \<comment> \<open>\<open>EU_TO_US[n]\<close>: the entry under the key \<open>n\<close>, \<open>undefined\<close> when there is none\<close>
  "EU_TO_US n =
     (case n of
        Num x \<Rightarrow> if x = of_int \<lfloor>x\<rfloor> then map_of EU_TO_US_table \<lfloor>x\<rfloor> else None
      | _ \<Rightarrow> None)"

definition IGNORED_TERMS :: "string set" where
  "IGNORED_TERMS =
     {''shoes'', ''shoe'', ''chaussures'', ''chaussure'', ''sneakers'', ''sneaker''}"

definition resolveSize :: "string \<Rightarrow> string" where
  "resolveSize size_str =
     (let num = parseFloat size_str
      in if \<not> isNaN num \<and> num_ge num 35 \<and> num_le num 50 then
           (case EU_TO_US (Math_round num) of Some us \<Rightarrow> us | None \<Rightarrow> size_str)
         else size_str)"

record parsed_query =
  terms :: "string list"
  detectedSize :: "string option"

definition tokenize :: "string \<Rightarrow> string list" where
  \<comment> \<open>\<open>rawQuery.toLowerCase().split(/\s+/).filter(Boolean)\<close>\<close>
  "tokenize rawQuery = filter (\<lambda>t. t \<noteq> []) (split_ws (toLowerCase rawQuery))"

definition isSizeToken :: "string \<Rightarrow> bool" where
  \<comment> \<open>the first test of the loop: US size range 4-15 or EU size range 35-50\<close>
  "isSizeToken token =
     (let num = parseFloat token
      in \<not> isNaN num \<and> ((num_ge num 4 \<and> num_le num 15) \<or> (num_ge num 35 \<and> num_le num 50)))"

fun scanTokens :: "string list \<Rightarrow> string list \<times> string list \<Rightarrow> string list \<times> string list" where
  \<comment> \<open>the loop over the tokens; the pair is \<open>(sizeTokens, textTokens)\<close>\<close>
  "scanTokens [] acc = acc"
| "scanTokens (token # rest) (sizeTokens, textTokens) =
     (if isSizeToken token then scanTokens rest (sizeTokens @ [token], textTokens)
      else if token = ''taille'' \<or> token = ''size'' then scanTokens rest (sizeTokens, textTokens)
      else if token \<notin> IGNORED_TERMS then scanTokens rest (sizeTokens, textTokens @ [token])
      else scanTokens rest (sizeTokens, textTokens))"

definition parseQueryAndSize :: "string \<Rightarrow> string option \<Rightarrow> parsed_query" where
  "parseQueryAndSize rawQuery explicitSize =
     (let (sizeTokens, textTokens) = scanTokens (tokenize rawQuery) ([], []);
          rawSize =
            (case explicitSize of
               Some e \<Rightarrow> Some e
             | None \<Rightarrow> (case sizeTokens of [] \<Rightarrow> None | s # _ \<Rightarrow> Some s))
      in \<lparr> terms = textTokens,
           detectedSize =
             (case rawSize of
                None \<Rightarrow> None
              | Some r \<Rightarrow> if r \<noteq> [] then Some (resolveSize r) else None) \<rparr>)"

subsection \<open>Regular expressions\<close>

text \<open>
  The server uses three regular expressions, all with the flag \<open>i\<close>:
  \<open>/\bwomen\b/i\<close>, \<open>/\bmen\b/i\<close> and, for a query term,
  \<open>new RegExp("\\b" + escaped, "i")\<close>, where \<open>escaped\<close> is the term with a backslash put
  before every character of the class \<open>[.*+?^${}()|[\]\\]\<close>. The patterns are
  sequences of two kinds of atom: the assertion \<open>\b\<close> and a character that stands for
  itself. \<open>parsePattern\<close> reads this fragment of the pattern syntax (\<open>None\<close>: the
  pattern is outside the fragment).
\<close>

definition backslash :: char where
  "backslash = CHR 0x5C"

definition isSyntaxChar :: "char \<Rightarrow> bool" where
  "isSyntaxChar c = (c \<in> set (''.*+?^${}()|[]'' @ [backslash]))"

definition escapeRegExp :: "string \<Rightarrow> string" where
  \<comment> \<open>\<open>term.replace(/[.*+?^${}()|[\]\\]/g, "\\$&")\<close>\<close>
  "escapeRegExp s = concat (map (\<lambda>c. if isSyntaxChar c then [backslash, c] else [c]) s)"

datatype atom = WordBoundary | Literal char

fun parsePattern :: "string \<Rightarrow> atom list option" where
  "parsePattern [] = Some []"
| "parsePattern [c] = (if isSyntaxChar c then None else Some [Literal c])"
| "parsePattern (c # d # rest) =
     (if c = backslash then
        (if d = CHR ''b'' then map_option (\<lambda>as. WordBoundary # as) (parsePattern rest)
         else if isSyntaxChar d then map_option (\<lambda>as. Literal d # as) (parsePattern rest)
         else None)
      else if isSyntaxChar c then None
      else map_option (\<lambda>as. Literal c # as) (parsePattern (d # rest)))"

definition isWordChar :: "char \<Rightarrow> bool" where
  \<comment> \<open>\<open>\w\<close>\<close>
  "isWordChar c =
     (c \<in> set ''abcdefghijklmnopqrstuvwxyzABCDEFGHIJKLMNOPQRSTUVWXYZ0123456789_'')"

definition isWordAt :: "char option \<Rightarrow> bool" where
  \<comment> \<open>is there a word character at this place; \<open>None\<close> is beyond either end of the input\<close>
  "isWordAt c = (case c of None \<Rightarrow> False | Some d \<Rightarrow> isWordChar d)"

definition canonicalize :: "char \<Rightarrow> char" where
  \<comment> \<open>the flag \<open>i\<close>: characters are compared after upper-casing\<close>
  "canonicalize c = toUpperChar c"

text \<open>
  \<open>matchAtoms as prev s\<close>: the atoms match at the position whose previous character
  is \<open>prev\<close> and whose remaining input is \<open>s\<close>. \<open>searchFrom\<close> tries every position
  from there on, as \<open>RegExp.prototype.test\<close> does from the start of the input.
\<close>

fun matchAtoms :: "atom list \<Rightarrow> char option \<Rightarrow> string \<Rightarrow> bool" where
  "matchAtoms [] prev s = True"
| "matchAtoms (WordBoundary # as) prev s =
     (isWordAt prev \<noteq> isWordAt (case s of [] \<Rightarrow> None | c # _ \<Rightarrow> Some c) \<and> matchAtoms as prev s)"
| "matchAtoms (Literal a # as) prev s =
     (case s of
        [] \<Rightarrow> False
      | c # cs \<Rightarrow> canonicalize a = canonicalize c \<and> matchAtoms as (Some c) cs)"

fun searchFrom :: "atom list \<Rightarrow> char option \<Rightarrow> string \<Rightarrow> bool" where
  "searchFrom as prev [] = matchAtoms as prev []"
| "searchFrom as prev (c # cs) = (matchAtoms as prev (c # cs) \<or> searchFrom as (Some c) cs)"

definition RegExp_test :: "string \<Rightarrow> string \<Rightarrow> bool" where
  \<comment> \<open>\<open>new RegExp(pattern, "i").test(s)\<close>\<close>
  "RegExp_test pattern s =
     (case parsePattern pattern of None \<Rightarrow> False | Some as \<Rightarrow> searchFrom as None s)"

subsection \<open>The catalog and the environment of a call\<close>

record variant =
  variant_title :: string
  variant_price :: string
  available :: "bool option"  \<comment> \<open>\<open>None\<close>: the field is absent upstream\<close>

record product =
  title :: string
  handle :: string
  variants :: "variant list"
  images :: "string list"  \<comment> \<open>the \<open>src\<close> of each image\<close>

datatype gender = Men | Women

record Shoe =
  name :: string
  price :: string
  imageUrl :: string
  productUrl :: string
  shoe_size :: "string option"
  shoe_handle :: string

record SearchResult =
  query :: string
  result_size :: "string option"
  result_gender :: "gender option"
  shoes :: "Shoe list"
  totalFound :: nat
  error :: "string option"

record CallToolResult =
  structuredContent :: SearchResult
  isError :: bool

datatype thrown =
  Error string  \<comment> \<open>an \<open>Error\<close> object and its message\<close>
| NonError string  \<comment> \<open>any other thrown value \<open>v\<close>, as \<open>String(v)\<close>\<close>

datatype json_body =
  Malformed string  \<comment> \<open>reading the body throws (\<open>res.json()\<close> rejects); the message\<close>
| Document "product list option"  \<comment> \<open>the \<open>products\<close> field, \<open>None\<close> when absent\<close>

datatype catalog_outcome =
  Rejected thrown  \<comment> \<open>\<open>fetch\<close> rejects: transport failure\<close>
| Response nat json_body  \<comment> \<open>the HTTP status and the body\<close>

datatype image_outcome =
  ImageFailed  \<comment> \<open>anything thrown inside the \<open>try\<close>\<close>
| ImageResponse nat "string option" string  \<comment> \<open>status, content type, base64 of the body\<close>

record env =
  now_check :: int  \<comment> \<open>\<open>Date.now()\<close> at the freshness test\<close>
  catalog :: catalog_outcome  \<comment> \<open>what the catalog endpoint answers, if asked\<close>
  now_store :: int  \<comment> \<open>\<open>Date.now()\<close> when the body has been read\<close>
  imageEndpoint :: "string \<Rightarrow> image_outcome"
  exponential :: "rat \<Rightarrow> string"
    \<comment> \<open>\<open>Number::toString\<close> from \<open>10 ^ 21\<close> on, which this theory leaves to the runtime\<close>

record state =
  productsCache :: "product list option"
  cacheTime :: int
  fetchCalls :: nat  \<comment> \<open>the requests the catalog endpoint has received\<close>

definition initial_state :: state where
  "initial_state = \<lparr> productsCache = None, cacheTime = 0, fetchCalls = 0 \<rparr>"

definition CACHE_TTL_MS :: int where
  "CACHE_TTL_MS = 5 * 60 * 1000"

definition ok :: "nat \<Rightarrow> bool" where
  \<comment> \<open>\<open>res.ok\<close>\<close>
  "ok status = (200 \<le> status \<and> status \<le> 299)"

fun showNat :: "nat \<Rightarrow> string" where
  "showNat n =
     (if n < 10 then [''0123456789'' ! n]
      else showNat (n div 10) @ [''0123456789'' ! (n mod 10)])"

declare showNat.simps [simp del]

subsection \<open>The catalog cache\<close>

definition fetchAllProducts :: "env \<Rightarrow> state \<Rightarrow> (thrown + product list) \<times> state" where
  "fetchAllProducts e st =
     (if productsCache st \<noteq> None \<and> now_check e - cacheTime st < CACHE_TTL_MS then
        (Inr (the (productsCache st)), st)
      else
        let st1 = st \<lparr> fetchCalls := fetchCalls st + 1 \<rparr>
        in case catalog e of
             Rejected t \<Rightarrow> (Inl t, st1)
           | Response status body \<Rightarrow>
               if \<not> ok status then
                 (Inl (Error (''HTTP '' @ showNat status @ '': Failed to fetch Allbirds products'')),
                  st1)
               else
                 (case body of
                    Malformed msg \<Rightarrow> (Inl (Error msg), st1)
                  | Document d \<Rightarrow>
                      let products = (case d of Some ps \<Rightarrow> ps | None \<Rightarrow> [])
                      in (Inr products,
                          st1 \<lparr> productsCache := Some products, cacheTime := now_store e \<rparr>)))"

subsection \<open>The catalog filter\<close>

definition fetchImageAsDataUrl :: "env \<Rightarrow> string \<Rightarrow> string" where
  "fetchImageAsDataUrl e url =
     (let sep = (if CHR ''?'' \<in> set url then ''&'' else ''?'');
          imgUrl = url @ sep @ ''width=200&format=pjpg''
      in case imageEndpoint e imgUrl of
           ImageFailed \<Rightarrow> []
         | ImageResponse status contentType base64 \<Rightarrow>
             if \<not> ok status then []
             else ''data:'' @ (case contentType of Some t \<Rightarrow> t | None \<Rightarrow> ''image/jpeg'')
                  @ '';base64,'' @ base64)"

definition toFixed0 :: "(rat \<Rightarrow> string) \<Rightarrow> Number \<Rightarrow> string" where
  \<comment> \<open>\<open>n.toFixed(0)\<close>\<close>
  "toFixed0 large n =
     (case n of
        NaN \<Rightarrow> ''NaN''
      | PosInfinity \<Rightarrow> ''Infinity''
      | NegInfinity \<Rightarrow> ''-Infinity''
      | Num x \<Rightarrow>
          (if x < 0 then ''-'' else [])
          @ (if 10 ^ 21 \<le> \<bar>x\<bar> then large \<bar>x\<bar> else showNat (nat \<lfloor>\<bar>x\<bar> + 1 / 2\<rfloor>)))"

definition truthy :: "string option \<Rightarrow> bool" where
  \<comment> \<open>a string in a condition: neither \<open>undefined\<close> nor empty\<close>
  "truthy s = (case s of None \<Rightarrow> False | Some v \<Rightarrow> v \<noteq> [])"

definition termMatches :: "string \<Rightarrow> string \<Rightarrow> bool" where
  \<comment> \<open>\<open>re.test(title)\<close> for the \<open>re\<close> built from \<open>term\<close>\<close>
  "termMatches term t = RegExp_test ([backslash, CHR ''b''] @ escapeRegExp term) t"

definition termFilter :: "string list \<Rightarrow> product \<Rightarrow> bool" where
  "termFilter ts p =
     (let t = toLowerCase (title p)
      in length ts = 0 \<or> list_all (\<lambda>term. termMatches term t) ts)"

definition womenFilter :: "product \<Rightarrow> bool" where
  "womenFilter p = RegExp_test ([backslash, CHR ''b''] @ ''women'' @ [backslash, CHR ''b'']) (title p)"

definition menFilter :: "product \<Rightarrow> bool" where
  "menFilter p =
     (RegExp_test ([backslash, CHR ''b''] @ ''men'' @ [backslash, CHR ''b'']) (title p)
      \<and> \<not> RegExp_test ([backslash, CHR ''b''] @ ''women'' @ [backslash, CHR ''b'']) (title p))"

definition genderFilter :: "gender option \<Rightarrow> product list \<Rightarrow> product list" where
  "genderFilter g ms =
     (case g of
        Some Women \<Rightarrow> filter womenFilter ms
      | Some Men \<Rightarrow> filter menFilter ms
      | None \<Rightarrow> ms)"

definition sizeFilter :: "string \<Rightarrow> product \<Rightarrow> bool" where
  "sizeFilter usSize p =
     list_ex (\<lambda>v. toLowerCase (variant_title v) = toLowerCase usSize \<and> available v \<noteq> Some False)
       (variants p)"

definition targetVariant :: "string option \<Rightarrow> product \<Rightarrow> variant option" where
  "targetVariant usSize p =
     (if truthy usSize then
        find (\<lambda>v. toLowerCase (variant_title v) = toLowerCase (the usSize)) (variants p)
      else (case variants p of [] \<Rightarrow> None | v # _ \<Rightarrow> Some v))"

definition buildShoe :: "env \<Rightarrow> string option \<Rightarrow> product \<Rightarrow> Shoe" where
  \<comment> \<open>the function mapped over \<open>top10\<close>\<close>
  "buildShoe e usSize p =
     (let rawImageUrl = (case images p of [] \<Rightarrow> [] | src # _ \<Rightarrow> src)
      in \<lparr> name = title p,
           price =
             (case targetVariant usSize p of
                None \<Rightarrow> ''See price''
              | Some v \<Rightarrow>
                  if variant_price v \<noteq> []
                  then ''$'' @ toFixed0 (exponential e) (parseFloat (variant_price v))
                  else ''See price''),
           imageUrl = (if rawImageUrl \<noteq> [] then fetchImageAsDataUrl e rawImageUrl else []),
           productUrl =
             ''https://www.allbirds.com/products/'' @ handle p
             @ (if truthy usSize then ''?size='' @ the usSize else []),
           shoe_size = usSize,
           shoe_handle = handle p \<rparr>)"

definition searchAllbirds ::
  "env \<Rightarrow> string \<Rightarrow> string option \<Rightarrow> gender option \<Rightarrow> state \<Rightarrow> (thrown + SearchResult) \<times> state" where
  "searchAllbirds e q sizeParam g st =
     (let parsed = parseQueryAndSize q sizeParam;
          usSize = detectedSize parsed
      in case fetchAllProducts e st of
           (Inl t, st') \<Rightarrow> (Inl t, st')
         | (Inr allProducts, st') \<Rightarrow>
             let matches1 = filter (termFilter (terms parsed)) allProducts;
                 matches2 = genderFilter g matches1;
                 matches = (if truthy usSize then filter (sizeFilter (the usSize)) matches2
                            else matches2);
                 top10 = take 5 matches
             in (Inr \<lparr> query = q,
                       result_size = (case usSize of Some u \<Rightarrow> Some u | None \<Rightarrow> sizeParam),
                       result_gender = g,
                       shoes = map (buildShoe e usSize) top10,
                       totalFound = length matches,
                       error = None \<rparr>,
                 st'))"

subsection \<open>The tool handler\<close>

definition handler ::
  "env \<Rightarrow> string \<Rightarrow> string option \<Rightarrow> gender option \<Rightarrow> state \<Rightarrow> CallToolResult \<times> state" where
  \<comment> \<open>the callback of \<open>search-allbirds-shoes\<close>; both results also carry the same record as JSON text\<close>
  "handler e q sizeParam g st =
     (case searchAllbirds e q sizeParam g st of
        (Inr result, st') \<Rightarrow> (\<lparr> structuredContent = result, isError = False \<rparr>, st')
      | (Inl err, st') \<Rightarrow>
          (\<lparr> structuredContent =
                \<lparr> query = q, result_size = sizeParam, result_gender = g, shoes = [],
                  totalFound = 0,
                  error = Some (case err of Error msg \<Rightarrow> msg | NonError str \<Rightarrow> str) \<rparr>,
              isError = True \<rparr>,
           st'))"

subsection \<open>Notions of the specification\<close>

text \<open>
  The words of the specification that the claims use, defined on their own and not
  through the regular expressions: equality up to case, a word boundary between two
  adjacent parts of a string, an occurrence that starts at a word boundary, an
  occurrence as a whole word, and a product that passes the three filters.
\<close>

definition equalIgnoringCase :: "string \<Rightarrow> string \<Rightarrow> bool" where
  "equalIgnoringCase a b = (map toUpperChar a = map toUpperChar b)"

definition lastChar :: "string \<Rightarrow> char option" where
  "lastChar s = (if s = [] then None else Some (last s))"

definition firstChar :: "string \<Rightarrow> char option" where
  "firstChar s = (case s of [] \<Rightarrow> None | c # _ \<Rightarrow> Some c)"

definition boundaryBetween :: "string \<Rightarrow> string \<Rightarrow> bool" where
  \<comment> \<open>exactly one of the two characters that meet is a word character\<close>
  "boundaryBetween before after = (isWordAt (lastChar before) \<noteq> isWordAt (firstChar after))"

definition occursAtWordBoundary :: "string \<Rightarrow> string \<Rightarrow> bool" where
  "occursAtWordBoundary w s =
     (\<exists>before mid after.
        s = before @ mid @ after \<and> equalIgnoringCase mid w \<and> boundaryBetween before (mid @ after))"

definition containsWord :: "string \<Rightarrow> string \<Rightarrow> bool" where
  "containsWord w s =
     (\<exists>before mid after.
        s = before @ mid @ after \<and> equalIgnoringCase mid w
        \<and> boundaryBetween before (mid @ after) \<and> boundaryBetween (before @ mid) after)"

definition genderKeeps :: "gender option \<Rightarrow> product \<Rightarrow> bool" where
  "genderKeeps g p =
     (case g of Some Women \<Rightarrow> womenFilter p | Some Men \<Rightarrow> menFilter p | None \<Rightarrow> True)"

definition sizeKeeps :: "string option \<Rightarrow> product \<Rightarrow> bool" where
  "sizeKeeps usSize p = (if truthy usSize then sizeFilter (the usSize) p else True)"

definition passesFilters :: "parsed_query \<Rightarrow> gender option \<Rightarrow> product \<Rightarrow> bool" where
  "passesFilters parsed g p =
     (termFilter (terms parsed) p \<and> genderKeeps g p \<and> sizeKeeps (detectedSize parsed) p)"

definition lastOr :: "char option \<Rightarrow> string \<Rightarrow> char option" where
  \<comment> \<open>the character before the position reached after reading \<open>s\<close> from a position after \<open>prev\<close>\<close>
  "lastOr prev s = (if s = [] then prev else Some (last s))"

subsection \<open>Fixtures\<close>

text \<open>
  An environment for the examples: the clock reads \<open>t\<close> at both readings, the catalog
  endpoint answers \<open>c\<close>, every image request fails, and no number is large enough for
  the exponential notation. A product with no variant and no image, and a product
  that has two variants with the same title, the first of them unavailable.
\<close>

definition fixture_env :: "int \<Rightarrow> catalog_outcome \<Rightarrow> env" where
  "fixture_env t c =
     \<lparr> now_check = t, catalog = c, now_store = t,
       imageEndpoint = (\<lambda>url. ImageFailed), exponential = (\<lambda>x. []) \<rparr>"

definition bare :: "string \<Rightarrow> string \<Rightarrow> product" where
  "bare t h = \<lparr> title = t, handle = h, variants = [], images = [] \<rparr>"

definition fixture_catalog :: "product list" where
  "fixture_catalog =
     [bare ''Men's Wool Runner'' ''mens-wool-runners'',
      bare ''Women's Wool Runner'' ''womens-wool-runners'',
      bare ''Trail Runner'' ''trail-runners'',
      bare ''Wool Runner Mizzle'' ''wool-runner-mizzles'',
      bare ''Wool Runner Fluff'' ''wool-runner-fluffs'',
      bare ''Wool Lounger'' ''wool-loungers'',
      bare ''Wool Runner Go'' ''wool-runner-go'',
      bare ''Wool Runner Up'' ''wool-runner-up'']"

definition fixture_duplicate_size :: product where
  "fixture_duplicate_size =
     \<lparr> title = ''Wool Runner'', handle = ''wool-runners'',
       variants =
         [\<lparr> variant_title = ''9'', variant_price = ''98.00'', available = Some False \<rparr>,
          \<lparr> variant_title = ''9'', variant_price = ''120.00'', available = Some True \<rparr>],
       images = [] \<rparr>"

section \<open>Facts about the embedding\<close>

subsection \<open>The patterns the server builds and what they match\<close>


lemma backslash_syntax: "isSyntaxChar backslash"
  by (simp add: isSyntaxChar_def)

lemma b_not_syntax: "\<not> isSyntaxChar (CHR ''b'')"
  by (simp add: isSyntaxChar_def backslash_def)

lemma parsePattern_plain:
  "\<not> isSyntaxChar c \<Longrightarrow> parsePattern (c # xs) = map_option (\<lambda>as. Literal c # as) (parsePattern xs)"
  using backslash_syntax by (cases xs) auto

lemma parsePattern_escaped:
  "isSyntaxChar c \<Longrightarrow> parsePattern (backslash # c # xs) = map_option (\<lambda>as. Literal c # as) (parsePattern xs)"
  using b_not_syntax by auto

lemma parsePattern_escapeRegExp:
  "parsePattern (escapeRegExp t @ r) = map_option (\<lambda>as. map Literal t @ as) (parsePattern r)"
proof (induction t)
  case Nil
  then show ?case by (simp add: escapeRegExp_def option.map_ident)
next
  case (Cons c t)
  have step: "escapeRegExp (c # t) = (if isSyntaxChar c then [backslash, c] else [c]) @ escapeRegExp t"
    by (simp add: escapeRegExp_def)
  show ?case
  proof (cases "isSyntaxChar c")
    case True
    then show ?thesis
      using Cons.IH by (simp add: step parsePattern_escaped option.map_comp comp_def del: parsePattern.simps)
  next
    case False
    then show ?thesis
      using Cons.IH by (simp add: step parsePattern_plain option.map_comp comp_def del: parsePattern.simps)
  qed
qed

lemma parsePattern_term:
  "parsePattern ([backslash, CHR ''b''] @ escapeRegExp t) = Some (WordBoundary # map Literal t)"
  using parsePattern_escapeRegExp [of t "[]"] by simp

lemma parsePattern_women:
  "parsePattern ([backslash, CHR ''b''] @ ''women'' @ [backslash, CHR ''b''])
     = Some (WordBoundary # map Literal ''women'' @ [WordBoundary])"
  by (simp add: isSyntaxChar_def backslash_def)

lemma parsePattern_men:
  "parsePattern ([backslash, CHR ''b''] @ ''men'' @ [backslash, CHR ''b''])
     = Some (WordBoundary # map Literal ''men'' @ [WordBoundary])"
  by (simp add: isSyntaxChar_def backslash_def)


lemma lastChar_lastOr: "lastChar s = lastOr None s"
  by (simp add: lastChar_def lastOr_def)

lemma lastChar_append: "lastChar (a @ b) = lastOr (lastChar a) b"
  by (simp add: lastChar_def lastOr_def)

lemma matchAtoms_literals:
  "matchAtoms (map Literal w @ as) prev s \<longleftrightarrow>
     (\<exists>mid after. s = mid @ after \<and> map canonicalize mid = map canonicalize w
        \<and> matchAtoms as (lastOr prev mid) after)"
proof (induction w arbitrary: prev s)
  case Nil
  then show ?case by (simp add: lastOr_def)
next
  case (Cons a w)
  show ?case
  proof (cases s)
    case Nil
    then show ?thesis by simp
  next
    case (Cons c cs)
    have "matchAtoms (map Literal (a # w) @ as) prev s \<longleftrightarrow>
          canonicalize a = canonicalize c \<and> matchAtoms (map Literal w @ as) (Some c) cs"
      using Cons by simp
    also have "\<dots> \<longleftrightarrow> canonicalize a = canonicalize c \<and>
        (\<exists>mid after. cs = mid @ after \<and> map canonicalize mid = map canonicalize w
           \<and> matchAtoms as (lastOr (Some c) mid) after)"
      using Cons.IH by simp
    also have "\<dots> \<longleftrightarrow> (\<exists>mid after. s = mid @ after \<and> map canonicalize mid = map canonicalize (a # w)
           \<and> matchAtoms as (lastOr prev mid) after)"
      (is "?L \<longleftrightarrow> ?R")
    proof
      assume ?L
      then obtain mid after where m: "canonicalize a = canonicalize c" "cs = mid @ after"
        "map canonicalize mid = map canonicalize w" "matchAtoms as (lastOr (Some c) mid) after"
        by blast
      have "lastOr prev (c # mid) = lastOr (Some c) mid" by (simp add: lastOr_def)
      with m Cons have "s = (c # mid) @ after \<and> map canonicalize (c # mid) = map canonicalize (a # w)
           \<and> matchAtoms as (lastOr prev (c # mid)) after" by simp
      then show ?R by blast
    next
      assume ?R
      then obtain mid after where m: "s = mid @ after" "map canonicalize mid = map canonicalize (a # w)"
        "matchAtoms as (lastOr prev mid) after" by blast
      from m(2) obtain d mid' where d: "mid = d # mid'" by (cases mid) auto
      have "lastOr prev (d # mid') = lastOr (Some d) mid'" by (simp add: lastOr_def)
      with m d Cons show ?L by auto
    qed
    finally show ?thesis .
  qed
qed

lemma searchFrom_iff:
  "searchFrom as prev s \<longleftrightarrow>
     (\<exists>before after. s = before @ after \<and> matchAtoms as (lastOr prev before) after)"
proof (induction s arbitrary: prev)
  case Nil
  then show ?case by (simp add: lastOr_def)
next
  case (Cons c cs)
  have "(\<exists>before after. c # cs = before @ after \<and> matchAtoms as (lastOr prev before) after)
     \<longleftrightarrow> matchAtoms as prev (c # cs)
         \<or> (\<exists>before after. cs = before @ after \<and> matchAtoms as (lastOr (Some c) before) after)"
    (is "?L \<longleftrightarrow> ?A \<or> ?B")
  proof
    assume ?L
    then obtain before after where m: "c # cs = before @ after" "matchAtoms as (lastOr prev before) after"
      by blast
    show "?A \<or> ?B"
    proof (cases before)
      case Nil
      with m show ?thesis by (simp add: lastOr_def)
    next
      case (Cons d before')
      have "lastOr prev (d # before') = lastOr (Some d) before'" by (simp add: lastOr_def)
      with m Cons have "cs = before' @ after \<and> matchAtoms as (lastOr (Some c) before') after" by simp
      then show ?thesis by blast
    qed
  next
    assume "?A \<or> ?B"
    then show ?L
    proof
      assume ?A
      then have "c # cs = [] @ (c # cs) \<and> matchAtoms as (lastOr prev []) (c # cs)"
        by (simp add: lastOr_def)
      then show ?L by blast
    next
      assume ?B
      then obtain before after where m: "cs = before @ after" "matchAtoms as (lastOr (Some c) before) after"
        by blast
      have "lastOr prev (c # before) = lastOr (Some c) before" by (simp add: lastOr_def)
      with m have "c # cs = (c # before) @ after \<and> matchAtoms as (lastOr prev (c # before)) after" by simp
      then show ?L by blast
    qed
  qed
  with Cons.IH show ?case by simp
qed


lemma termMatches_searchFrom:
  "termMatches w s = searchFrom (WordBoundary # map Literal w) None s"
  unfolding termMatches_def RegExp_test_def parsePattern_term by simp

lemma matchAtoms_literals_end:
  "matchAtoms (map Literal w) prev s \<longleftrightarrow>
     (\<exists>mid after. s = mid @ after \<and> equalIgnoringCase mid w)"
  using matchAtoms_literals [of w "[]" prev s]
  by (simp add: equalIgnoringCase_def canonicalize_def [abs_def])

lemma termMatches_iff: "termMatches w s \<longleftrightarrow> occursAtWordBoundary w s"
proof -
  have "termMatches w s \<longleftrightarrow>
      (\<exists>before after. s = before @ after \<and> boundaryBetween before after
         \<and> (\<exists>mid after'. after = mid @ after' \<and> equalIgnoringCase mid w))"
    unfolding termMatches_searchFrom searchFrom_iff
    by (simp add: matchAtoms_literals_end boundaryBetween_def lastChar_lastOr firstChar_def)
  also have "\<dots> \<longleftrightarrow> occursAtWordBoundary w s"
    unfolding occursAtWordBoundary_def by blast
  finally show ?thesis .
qed

lemma wordTest_iff:
  "searchFrom (WordBoundary # map Literal w @ [WordBoundary]) None s \<longleftrightarrow> containsWord w s"
proof -
  have inner: "matchAtoms (map Literal w @ [WordBoundary]) (lastChar before) after \<longleftrightarrow>
      (\<exists>mid after'. after = mid @ after' \<and> equalIgnoringCase mid w
         \<and> boundaryBetween (before @ mid) after')" for before after
    unfolding matchAtoms_literals
    by (simp add: equalIgnoringCase_def canonicalize_def [abs_def] boundaryBetween_def
        lastChar_append firstChar_def)
  have "searchFrom (WordBoundary # map Literal w @ [WordBoundary]) None s \<longleftrightarrow>
      (\<exists>before after. s = before @ after \<and> boundaryBetween before after
         \<and> (\<exists>mid after'. after = mid @ after' \<and> equalIgnoringCase mid w
         \<and> boundaryBetween (before @ mid) after'))"
    unfolding searchFrom_iff
    by (simp add: inner [unfolded lastChar_lastOr] boundaryBetween_def lastChar_lastOr firstChar_def)
  also have "\<dots> \<longleftrightarrow> containsWord w s"
    unfolding containsWord_def by blast
  finally show ?thesis .
qed

lemma womenFilter_iff: "womenFilter p \<longleftrightarrow> containsWord ''women'' (title p)"
  unfolding womenFilter_def RegExp_test_def parsePattern_women
  using wordTest_iff [of "''women''" "title p"] by simp

lemma menFilter_iff:
  "menFilter p \<longleftrightarrow> containsWord ''men'' (title p) \<and> \<not> containsWord ''women'' (title p)"
  unfolding menFilter_def RegExp_test_def parsePattern_women parsePattern_men
  using wordTest_iff [of "''women''" "title p"] wordTest_iff [of "''men''" "title p"] by simp

lemmas regex_eval = canonicalize_def toUpperChar_def isWordAt_def isWordChar_def



subsection \<open>Numbers that are read exactly\<close>

lemma bitlen_one: "bitlen 1 = 1"
  by (simp add: bitlen_alt_def)

lemma roundTiesToEven_of_int: "roundTiesToEven (of_int k) = k"
  by (simp add: roundTiesToEven_def)

lemma numberValue_integer:
  assumes "0 < p" "p < 2 ^ 53"
  shows "numberValue neg p 1 = Num (if neg then - of_nat p else of_nat p)"
proof -
  define b where "b = bitlen (int p)"
  have pos: "0 < int p" using assms by simp
  have bb: "2 ^ nat (b - 1) \<le> int p" "int p < 2 ^ nat b"
    using bitlen_bounds [OF pos] by (simp_all add: b_def)
  have b1: "1 \<le> b" using pos by (auto simp: b_def bitlen_alt_def)
  have "int p < 2 ^ 53" using assms(2) by (metis of_nat_less_numeral_power_cancel_iff)
  then have b53: "b \<le> 53" unfolding b_def by (simp add: bitlen_le_iff_power)
  have "(2::rat) ^ nat (b - 1) = of_int (2 ^ nat (b - 1))" by simp
  also have "\<dots> \<le> of_int (int p)" using bb(1) by (simp only: of_int_le_iff)
  finally have le: "(2::rat) ^ nat (b - 1) \<le> of_nat p" by simp
  have fl: "floorLog2 p 1 = b - 1"
    using le b1 by (simp add: floorLog2_def bitlen_one b_def [symmetric] pow2_def)
  have e: "max (floorLog2 p 1) (- 1022) = b - 1" using fl b1 by simp
  have ulp: "pow2 (b - 1 - 52) = 1 / 2 ^ nat (53 - b)"
    using b53 by (auto simp: pow2_def)
  have q: "of_nat p / (of_nat 1 * (1 / 2 ^ nat (53 - b))) = (of_int (int p * 2 ^ nat (53 - b)) :: rat)"
    by simp
  have y: "of_int (roundTiesToEven (of_nat p / (of_nat 1 * pow2 (b - 1 - 52)))) * pow2 (b - 1 - 52)
      = (of_nat p :: rat)"
    unfolding ulp q roundTiesToEven_of_int by simp
  have small: "\<not> pow2 1024 \<le> (of_nat p :: rat)"
  proof -
    have "(of_nat p :: rat) < 2 ^ 53" using assms(2) by (metis of_nat_less_numeral_power_cancel_iff)
    also have "\<dots> < 2 ^ 1024" by (rule power_strict_increasing) simp_all
    finally show ?thesis by (simp add: pow2_def)
  qed
  show ?thesis
    unfolding numberValue_def Let_def e y using assms(1) small by simp
qed

lemma numberValue_integer_Suc:
  "0 < p \<Longrightarrow> p < 2 ^ 53 \<Longrightarrow>
   numberValue neg p (Suc 0) = Num (if neg then - of_nat p else of_nat p)"
  using numberValue_integer [of p neg] by simp

lemma Math_round_of_int: "Math_round (Num (of_int k)) = Num (of_int k)"
proof -
  have "\<lfloor>(of_int k :: rat) + 1 / 2\<rfloor> = k"
    by (simp add: floor_eq_iff)
  then show ?thesis by (simp add: Math_round_def)
qed

lemma Math_round_numeral: "Math_round (Num (numeral w)) = Num (numeral w)"
  using Math_round_of_int [of "numeral w"] by simp

lemma pow2_powi: "pow2 k = 2 powi k"
  by (simp add: pow2_def power_int_def power_one_over inverse_eq_divide)

lemma pow2_pos: "0 < pow2 k"
  by (simp add: pow2_powi)

lemma pow2_add: "pow2 (i + j) = pow2 i * pow2 j"
  by (simp add: pow2_powi power_int_add)

lemma pow2_nat: "pow2 (int n) = 2 ^ n"
  by (simp add: pow2_def)

lemma pow2_mono: "i \<le> j \<Longrightarrow> pow2 i \<le> pow2 j"
  by (simp add: pow2_powi power_int_increasing)

lemma pow2_strict_mono: "i < j \<Longrightarrow> pow2 i < pow2 j"
  by (simp add: pow2_powi power_int_strict_increasing)

lemma bitlen_pow2_bounds:
  assumes "0 < n"
  shows "pow2 (bitlen (int n) - 1) \<le> of_nat n" "(of_nat n :: rat) < pow2 (bitlen (int n))"
proof -
  have pos: "0 < int n" using assms by simp
  from bitlen_bounds [OF pos]
  have b: "2 ^ nat (bitlen (int n) - 1) \<le> int n" "int n < 2 ^ nat (bitlen (int n))"
    by simp_all
  have b1: "1 \<le> bitlen (int n)" using pos by (auto simp: bitlen_alt_def)
  have "(2::rat) ^ nat (bitlen (int n) - 1) = of_int (2 ^ nat (bitlen (int n) - 1))" by simp
  also have "\<dots> \<le> of_int (int n)" using b(1) by (simp only: of_int_le_iff)
  finally show "pow2 (bitlen (int n) - 1) \<le> of_nat n"
    using b1 by (simp add: pow2_def)
  have "(of_int (int n) :: rat) < of_int (2 ^ nat (bitlen (int n)))"
    using b(2) by (simp only: of_int_less_iff)
  then show "(of_nat n :: rat) < pow2 (bitlen (int n))"
    using b1 by (simp add: pow2_def)
qed

lemma floorLog2_bounds:
  assumes "0 < p" "0 < q"
  shows "pow2 (floorLog2 p q) * of_nat q \<le> of_nat p"
    and "(of_nat p :: rat) < pow2 (floorLog2 p q + 1) * of_nat q"
proof -
  define a where "a = bitlen (int p)"
  define b where "b = bitlen (int q)"
  note pb = bitlen_pow2_bounds [OF assms(1), folded a_def]
  note qb = bitlen_pow2_bounds [OF assms(2), folded b_def]
  have low: "pow2 (a - b - 1) * of_nat q \<le> of_nat p"
  proof -
    have "pow2 (a - b - 1) * of_nat q \<le> pow2 (a - b - 1) * pow2 b"
      using qb(2) pow2_pos [of "a - b - 1"] by (simp add: mult_left_mono less_imp_le)
    also have "\<dots> = pow2 (a - 1)" by (simp flip: pow2_add)
    finally show ?thesis using pb(1) by simp
  qed
  have high: "(of_nat p :: rat) < pow2 (a - b + 1) * of_nat q"
  proof -
    have "(of_nat p :: rat) < pow2 a" by (rule pb(2))
    also have "\<dots> = pow2 (a - b + 1) * pow2 (b - 1)" by (simp flip: pow2_add)
    also have "\<dots> \<le> pow2 (a - b + 1) * of_nat q"
      using qb(1) pow2_pos [of "a - b + 1"] by (simp add: mult_left_mono less_imp_le)
    finally show ?thesis .
  qed
  show "pow2 (floorLog2 p q) * of_nat q \<le> of_nat p"
    using low by (simp add: floorLog2_def Let_def a_def b_def)
  show "(of_nat p :: rat) < pow2 (floorLog2 p q + 1) * of_nat q"
    using high by (auto simp: floorLog2_def Let_def a_def b_def not_le)
qed

lemma binade_unique:
  assumes "pow2 e \<le> x" "x < pow2 (e + 1)" "pow2 e' \<le> x" "x < pow2 (e' + 1)"
  shows "e = e'"
proof (rule ccontr)
  assume "e \<noteq> e'"
  then consider "e + 1 \<le> e'" | "e' + 1 \<le> e" by linarith
  then show False
  proof cases
    case 1
    then have "pow2 (e + 1) \<le> pow2 e'" by (rule pow2_mono)
    with assms show False by simp
  next
    case 2
    then have "pow2 (e' + 1) \<le> pow2 e" by (rule pow2_mono)
    with assms show False by simp
  qed
qed

lemma floorLog2_eq:
  assumes "0 < p" "0 < q" "pow2 e * of_nat q \<le> of_nat p" "(of_nat p :: rat) < pow2 (e + 1) * of_nat q"
  shows "floorLog2 p q = e"
proof -
  have q: "(0 :: rat) < of_nat q" using assms(2) by simp
  have "pow2 (floorLog2 p q) \<le> of_nat p / of_nat q" "of_nat p / of_nat q < pow2 (floorLog2 p q + 1)"
    "pow2 e \<le> of_nat p / of_nat q" "of_nat p / of_nat q < pow2 (e + 1)"
    using floorLog2_bounds [OF assms(1,2)] assms(3,4) q
    by (simp_all add: pos_le_divide_eq pos_divide_less_eq)
  then show ?thesis by (rule binade_unique)
qed

lemma numberValue_exact:
  assumes "0 < p" "0 < q"
    and "pow2 e * of_nat q \<le> of_nat p" "(of_nat p :: rat) < pow2 (e + 1) * of_nat q"
    and "- 1022 \<le> e" "e \<le> 1023"
    and "of_nat p / (of_nat q * pow2 (e - 52)) = (of_int n :: rat)"
  shows "numberValue neg p q = Num (if neg then - (of_nat p / of_nat q) else of_nat p / of_nat q)"
proof -
  have fl: "max (floorLog2 p q) (- 1022) = e"
    using floorLog2_eq [OF assms(1-4)] assms(5) by simp
  have q: "(0 :: rat) < of_nat q" using assms(2) by simp
  have y: "of_int (roundTiesToEven (of_nat p / (of_nat q * pow2 (e - 52)))) * pow2 (e - 52)
      = (of_nat p / of_nat q :: rat)"
    unfolding assms(7) roundTiesToEven_of_int
    using assms(7) [symmetric] pow2_pos [of "e - 52"] by simp
  have "of_nat p / of_nat q < pow2 (e + 1)"
    using assms(4) q by (simp add: pos_divide_less_eq)
  also have "\<dots> \<le> pow2 1024"
    using assms(6) by (intro pow2_mono) simp
  finally have small: "\<not> pow2 1024 \<le> (of_nat p / of_nat q :: rat)" by simp
  show ?thesis
    unfolding numberValue_def Let_def fl y using assms(1) small by simp
qed

lemmas parseFloat_eval =
  parseFloat_def stripSign_def isWhiteSpace_def isDigit_def digitValue_def exponentPart_def
  numberValue_integer_Suc

lemmas resolveSize_eval =
  resolveSize_def parseFloat_eval isNaN_def num_ge_def num_le_def Math_round_numeral
  EU_TO_US_def EU_TO_US_table_def

subsection \<open>The query interpreter\<close>

lemma table_total: "35 \<le> n \<Longrightarrow> n \<le> 48 \<Longrightarrow> \<exists>us. map_of EU_TO_US_table n = Some us"
  by (simp add: EU_TO_US_table_def) arith

lemma table_beyond: "48 < n \<Longrightarrow> map_of EU_TO_US_table n = None"
  by (simp add: EU_TO_US_table_def)

lemma table_below: "n < 35 \<Longrightarrow> map_of EU_TO_US_table n = None"
  by (simp add: EU_TO_US_table_def)

lemma resolveSize_in_range:
  assumes "parseFloat s = Num x" "35 \<le> x" "x \<le> 50"
  shows "resolveSize s = (case map_of EU_TO_US_table \<lfloor>x + 1 / 2\<rfloor> of Some us \<Rightarrow> us | None \<Rightarrow> s)"
  using assms by (simp add: resolveSize_def isNaN_def num_ge_def num_le_def Math_round_def EU_TO_US_def)

lemma resolveSize_out_of_range:
  assumes "\<forall>x. parseFloat s = Num x \<longrightarrow> x < 35 \<or> 50 < x"
  shows "resolveSize s = s"
  using assms by (cases "parseFloat s") (auto simp: resolveSize_def isNaN_def num_ge_def num_le_def)

lemma floor_half_numeral: "\<lfloor>(numeral w :: rat) + 1 / 2\<rfloor> = numeral w"
proof -
  have "\<lfloor>(of_int (numeral w) :: rat) + 1 / 2\<rfloor> = numeral w"
    by (simp add: floor_eq_iff)
  then show ?thesis by simp
qed

lemma scanTokens_filter:
  "scanTokens ts (ss, xs) =
     (ss @ filter isSizeToken ts,
      xs @ filter (\<lambda>t. \<not> isSizeToken t \<and> t \<noteq> ''taille'' \<and> t \<noteq> ''size'' \<and> t \<notin> IGNORED_TERMS) ts)"
  by (induction ts arbitrary: ss xs) simp_all

lemma terms_parseQueryAndSize:
  "terms (parseQueryAndSize q e) =
     filter (\<lambda>t. \<not> isSizeToken t \<and> t \<noteq> ''taille'' \<and> t \<noteq> ''size'' \<and> t \<notin> IGNORED_TERMS) (tokenize q)"
  by (simp add: parseQueryAndSize_def scanTokens_filter)

lemma detectedSize_explicit:
  "detectedSize (parseQueryAndSize q (Some e)) = (if e = [] then None else Some (resolveSize e))"
  by (simp add: parseQueryAndSize_def scanTokens_filter)

lemma detectedSize_in_text:
  "detectedSize (parseQueryAndSize q None) =
     (case filter isSizeToken (tokenize q) of [] \<Rightarrow> None
      | t # _ \<Rightarrow> if t \<noteq> [] then Some (resolveSize t) else None)"
  by (simp add: parseQueryAndSize_def scanTokens_filter split: list.splits)

lemmas tokenize_eval = tokenize_def toLowerCase_def toLowerChar_def isWhiteSpace_def

lemmas isSizeToken_eval = isSizeToken_def parseFloat_eval isNaN_def num_ge_def num_le_def


section \<open>The term filter\<close>

text \<open>
  Claim C1 says that a query term matches a title only as a whole word, so that the
  term \<open>run\<close> does not match the title \<open>running\<close>. The regular expression built for a
  term has \<open>\b\<close> before the term and nothing after it. The product titled \<open>running\<close>
  passes the filter for the term \<open>run\<close>, although \<open>run\<close> is not a word of that title.
\<close>

theorem term_filter_run_matches_running:
  "termFilter [''run''] \<lparr> title = ''running'', handle = ''running'', variants = [], images = [] \<rparr>
   \<and> \<not> containsWord ''run'' (toLowerCase ''running'')"
proof -
  have "termMatches ''run'' (toLowerCase ''running'')"
    by (simp add: termMatches_searchFrom toLowerCase_def toLowerChar_def regex_eval)
  moreover have "\<not> searchFrom (WordBoundary # map Literal ''run'' @ [WordBoundary]) None
      (toLowerCase ''running'')"
    by (simp add: toLowerCase_def toLowerChar_def regex_eval)
  ultimately show ?thesis
    unfolding wordTest_iff by (simp add: termFilter_def)
qed

text \<open>
  Claim C1, amended: a product passes the term filter exactly when every term occurs
  in the lower-cased title, case ignored, at a place where a word boundary precedes
  it. Nothing is asked of what follows the occurrence: a term that begins a word of
  the title matches, so \<open>run\<close> matches both \<open>Run Club\<close> and \<open>running\<close>, and a term in
  the middle of a word does not (\<open>men\<close> does not match \<open>Women's Runner\<close>).
\<close>

theorem term_filter_occurs_at_word_boundary:
  "termFilter ts p \<longleftrightarrow> (\<forall>w \<in> set ts. occursAtWordBoundary w (toLowerCase (title p)))"
  by (auto simp: termFilter_def list_all_iff termMatches_iff)

theorem term_filter_occurs_at_word_boundary_witness:
  "occursAtWordBoundary ''run'' (toLowerCase ''Run Club'')
   \<and> occursAtWordBoundary ''run'' (toLowerCase ''running'')
   \<and> \<not> occursAtWordBoundary ''men'' (toLowerCase ''Women's Runner'')"
proof -
  have a: "termFilter [''run''] \<lparr> title = ''Run Club'', handle = ''a'', variants = [], images = [] \<rparr>"
    by (simp add: termFilter_def termMatches_searchFrom toLowerCase_def toLowerChar_def regex_eval)
  have b: "termFilter [''run''] \<lparr> title = ''running'', handle = ''b'', variants = [], images = [] \<rparr>"
    by (simp add: termFilter_def termMatches_searchFrom toLowerCase_def toLowerChar_def regex_eval)
  have c: "\<not> termFilter [''men''] \<lparr> title = ''Women's Runner'', handle = ''c'', variants = [], images = [] \<rparr>"
    by (simp add: termFilter_def termMatches_searchFrom toLowerCase_def toLowerChar_def regex_eval)
  show ?thesis
    using a b c
      term_filter_occurs_at_word_boundary [of "[''run'']"
        "\<lparr> title = ''Run Club'', handle = ''a'', variants = [], images = [] \<rparr>"]
      term_filter_occurs_at_word_boundary [of "[''run'']"
        "\<lparr> title = ''running'', handle = ''b'', variants = [], images = [] \<rparr>"]
      term_filter_occurs_at_word_boundary [of "[''men'']"
        "\<lparr> title = ''Women's Runner'', handle = ''c'', variants = [], images = [] \<rparr>"]
    by simp
qed

section \<open>The gender filter\<close>

text \<open>
  Claim C7: with gender \<open>men\<close> the filter keeps exactly the products whose title
  contains \<open>men\<close> as a word and does not contain \<open>women\<close> as a word; with gender
  \<open>women\<close> it keeps exactly those whose title contains \<open>women\<close> as a word; case is
  ignored. The title \<open>Men's Runner\<close> is kept for \<open>men\<close>, the title \<open>Women's Runner\<close> is
  not, and is kept for \<open>women\<close>.
\<close>

theorem gender_filter_whole_words:
  "genderFilter (Some Men) ps
     = filter (\<lambda>p. containsWord ''men'' (title p) \<and> \<not> containsWord ''women'' (title p)) ps
   \<and> genderFilter (Some Women) ps = filter (\<lambda>p. containsWord ''women'' (title p)) ps
   \<and> menFilter \<lparr> title = ''Men's Runner'', handle = h, variants = vs, images = is \<rparr>
   \<and> \<not> menFilter \<lparr> title = ''Women's Runner'', handle = h, variants = vs, images = is \<rparr>
   \<and> womenFilter \<lparr> title = ''Women's Runner'', handle = h, variants = vs, images = is \<rparr>"
proof -
  have "menFilter = (\<lambda>p. containsWord ''men'' (title p) \<and> \<not> containsWord ''women'' (title p))"
    by (rule ext) (rule menFilter_iff)
  moreover have "womenFilter = (\<lambda>p. containsWord ''women'' (title p))"
    by (rule ext) (rule womenFilter_iff)
  moreover have "menFilter \<lparr> title = ''Men's Runner'', handle = h, variants = vs, images = is \<rparr>"
    unfolding menFilter_def RegExp_test_def parsePattern_women parsePattern_men
    by (simp add: regex_eval)
  moreover have "\<not> menFilter \<lparr> title = ''Women's Runner'', handle = h, variants = vs, images = is \<rparr>"
    unfolding menFilter_def RegExp_test_def parsePattern_women parsePattern_men
    by (simp add: regex_eval)
  moreover have "womenFilter \<lparr> title = ''Women's Runner'', handle = h, variants = vs, images = is \<rparr>"
    unfolding womenFilter_def RegExp_test_def parsePattern_women
    by (simp add: regex_eval)
  ultimately show ?thesis
    by (simp add: genderFilter_def)
qed

theorem gender_filter_whole_words_witness:
  "map title (genderFilter (Some Men)
      [\<lparr> title = ''Men's Runner'', handle = ''m'', variants = [], images = [] \<rparr>,
       \<lparr> title = ''Women's Runner'', handle = ''w'', variants = [], images = [] \<rparr>])
     = [''Men's Runner'']
   \<and> containsWord ''men'' ''Men's Runner''
   \<and> \<not> containsWord ''men'' ''Women's Runner''"
proof -
  let ?m = "\<lparr> title = ''Men's Runner'', handle = ''m'', variants = [], images = [] \<rparr>"
  let ?w = "\<lparr> title = ''Women's Runner'', handle = ''w'', variants = [], images = [] \<rparr>"
  have m: "searchFrom (WordBoundary # map Literal ''men'' @ [WordBoundary]) None ''Men's Runner''"
    by (simp add: regex_eval)
  have w: "\<not> searchFrom (WordBoundary # map Literal ''men'' @ [WordBoundary]) None ''Women's Runner''"
    by (simp add: regex_eval)
  have "genderFilter (Some Men) [?m, ?w] = [?m]"
    using gender_filter_whole_words [of "[?m, ?w]" "''m''" "[]" "[]"]
      gender_filter_whole_words [of "[?m, ?w]" "''w''" "[]" "[]"]
    by (simp add: genderFilter_def)
  then show ?thesis
    using m w unfolding wordTest_iff by simp
qed

section \<open>Size resolution\<close>

text \<open>
  Claim C5: for a size string that \<open>parseFloat\<close> reads as a number \<open>x\<close> in \<open>[35, 50]\<close>,
  \<open>resolveSize\<close> rounds \<open>x\<close> to the nearest integer (\<open>Math.round\<close>, at most one half
  away); when that integer is at most 48 the result is its entry in the EU to US
  table, and when it is 49 or 50, which the table does not have, the result is the
  input string. A size string that is not a number in \<open>[35, 50]\<close>, a US size among
  them, is returned unchanged.
\<close>

theorem resolveSize_by_range:
  "(parseFloat s = Num x \<and> 35 \<le> x \<and> x \<le> 50 \<longrightarrow>
      \<bar>x - of_int \<lfloor>x + 1 / 2\<rfloor>\<bar> \<le> 1 / 2
      \<and> (\<lfloor>x + 1 / 2\<rfloor> \<le> 48 \<longrightarrow> map_of EU_TO_US_table \<lfloor>x + 1 / 2\<rfloor> = Some (resolveSize s))
      \<and> (48 < \<lfloor>x + 1 / 2\<rfloor> \<longrightarrow> resolveSize s = s))
   \<and> ((\<forall>y. parseFloat s = Num y \<longrightarrow> y < 35 \<or> 50 < y) \<longrightarrow> resolveSize s = s)"
proof -
  have "\<bar>x - of_int \<lfloor>x + 1 / 2\<rfloor>\<bar> \<le> 1 / 2"
    by linarith
  moreover have "map_of EU_TO_US_table \<lfloor>x + 1 / 2\<rfloor> = Some (resolveSize s)"
    if "parseFloat s = Num x" "35 \<le> x" "x \<le> 50" "\<lfloor>x + 1 / 2\<rfloor> \<le> 48"
  proof -
    have "35 \<le> \<lfloor>x + 1 / 2\<rfloor>" using that(2) by linarith
    then have "\<exists>us. map_of EU_TO_US_table \<lfloor>x + 1 / 2\<rfloor> = Some us"
      using that(4) by (rule table_total)
    then obtain us where "map_of EU_TO_US_table \<lfloor>x + 1 / 2\<rfloor> = Some us" ..
    then show ?thesis using resolveSize_in_range [OF that(1-3)] by simp
  qed
  moreover have "resolveSize s = s"
    if "parseFloat s = Num x" "35 \<le> x" "x \<le> 50" "48 < \<lfloor>x + 1 / 2\<rfloor>"
  proof -
    show ?thesis
      using resolveSize_in_range [OF that(1-3)] table_beyond [OF that(4)] by simp
  qed
  ultimately show ?thesis
    using resolveSize_out_of_range by blast
qed

theorem resolveSize_by_range_witness:
  "parseFloat ''42'' = Num 42 \<and> resolveSize ''42'' = ''9''
   \<and> parseFloat ''49'' = Num 49 \<and> resolveSize ''49'' = ''49''
   \<and> parseFloat ''9'' = Num 9 \<and> resolveSize ''9'' = ''9''
   \<and> parseFloat ''41.5'' = Num (83 / 2) \<and> resolveSize ''41.5'' = ''9''
   \<and> parseFloat ''48.5'' = Num (97 / 2) \<and> resolveSize ''48.5'' = ''48.5''
   \<and> map_of EU_TO_US_table 35 = Some ''4'' \<and> map_of EU_TO_US_table 48 = Some ''15''"
proof -
  have p42: "parseFloat ''42'' = Num 42" by (simp add: parseFloat_eval)
  have p49: "parseFloat ''49'' = Num 49" by (simp add: parseFloat_eval)
  have p9: "parseFloat ''9'' = Num 9" by (simp add: parseFloat_eval)
  have "numberValue False 415 10 = Num (83 / 2)"
    using numberValue_exact [of 415 10 5 "83 * 2 ^ 46" False] by (simp add: pow2_def)
  then have p415: "parseFloat ''41.5'' = Num (83 / 2)" by (simp add: parseFloat_eval)
  have "numberValue False 485 10 = Num (97 / 2)"
    using numberValue_exact [of 485 10 5 "97 * 2 ^ 46" False] by (simp add: pow2_def)
  then have p485: "parseFloat ''48.5'' = Num (97 / 2)" by (simp add: parseFloat_eval)
  have t42: "map_of EU_TO_US_table 42 = Some ''9''" by (simp add: EU_TO_US_table_def)
  have f42: "\<lfloor>(42 :: rat) + 1 / 2\<rfloor> = 42" by (rule floor_half_numeral)
  have f49: "\<lfloor>(49 :: rat) + 1 / 2\<rfloor> = 49" by (rule floor_half_numeral)
  have f415: "\<lfloor>(83 / 2 :: rat) + 1 / 2\<rfloor> = 42" by simp
  have f485: "\<lfloor>(97 / 2 :: rat) + 1 / 2\<rfloor> = 49" by simp
  have "resolveSize ''42'' = ''9''"
    using resolveSize_by_range [of "''42''" 42, unfolded f42] p42 t42 by simp
  moreover have "resolveSize ''49'' = ''49''"
    using resolveSize_by_range [of "''49''" 49, unfolded f49] p49 by simp
  moreover have "resolveSize ''9'' = ''9''"
    using resolveSize_by_range [of "''9''" 9] p9 by simp
  moreover have "resolveSize ''41.5'' = ''9''"
    using resolveSize_by_range [of "''41.5''" "83 / 2", unfolded f415] p415 t42 by simp
  moreover have "resolveSize ''48.5'' = ''48.5''"
    using resolveSize_by_range [of "''48.5''" "97 / 2", unfolded f485] p485 by simp
  ultimately show ?thesis
    using p42 p49 p9 p415 p485 by (simp add: EU_TO_US_table_def)
qed

section \<open>Precedence of the explicit size\<close>

text \<open>
  Claim C6: when the caller supplies a size, the resolved size is computed from that
  parameter alone, whatever the query text holds: it is \<open>resolveSize\<close> of the parameter
  (and no size at all when the parameter is the empty string). For the query
  \<open>runner 9\<close> with the size \<open>42\<close> the resolved size is the table's entry for 42, which is
  \<open>9\<close>; with the size \<open>43\<close> it is \<open>10\<close>, where the token of the text would have given \<open>9\<close>.
\<close>

theorem explicit_size_overrides_text:
  "detectedSize (parseQueryAndSize q (Some e)) = (if e = [] then None else Some (resolveSize e))
   \<and> detectedSize (parseQueryAndSize ''runner 9'' (Some ''42'')) = Some ''9''
   \<and> detectedSize (parseQueryAndSize ''runner 9'' (Some ''43'')) = Some ''10''
   \<and> detectedSize (parseQueryAndSize ''runner 9'' None) = Some ''9''"
proof -
  have "tokenize ''runner 9'' = [''runner'', ''9'']"
    by (simp add: tokenize_eval)
  moreover have "isSizeToken ''9''" "\<not> isSizeToken ''runner''"
    by (simp_all add: isSizeToken_eval)
  moreover have "resolveSize ''9'' = ''9''" "resolveSize ''42'' = ''9''" "resolveSize ''43'' = ''10''"
    by (simp_all add: resolveSize_eval)
  ultimately show ?thesis
    by (simp add: detectedSize_explicit detectedSize_in_text)
qed

theorem explicit_size_overrides_text_witness:
  "detectedSize (parseQueryAndSize ''size 12 wool runner'' (Some ''44'')) = Some ''11''"
proof -
  have "resolveSize ''44'' = ''11''"
    by (simp add: resolveSize_eval)
  then show ?thesis
    using explicit_size_overrides_text [of "''size 12 wool runner''" "''44''"] by simp
qed

section \<open>Size tokens of the query text\<close>

text \<open>
  Claim C9: a token of the query is a size token as soon as the number that
  \<open>parseFloat\<close> reads at its start lies in \<open>[4, 15]\<close> or in \<open>[35, 50]\<close>, whatever follows
  the number in the token. Such a token is put among the size tokens, is never one of
  the descriptive terms, and without an explicit size parameter the query has a
  resolved size. The tokens \<open>4runner\<close> and \<open>9th\<close> are read as sizes in this way.
\<close>

theorem size_token_by_numeric_prefix:
  assumes "token \<in> set (tokenize q)"
    and "parseFloat token = Num x"
    and "(4 \<le> x \<and> x \<le> 15) \<or> (35 \<le> x \<and> x \<le> 50)"
  shows "token \<in> set (fst (scanTokens (tokenize q) ([], [])))
         \<and> token \<notin> set (terms (parseQueryAndSize q e))
         \<and> detectedSize (parseQueryAndSize q None) \<noteq> None"
proof -
  have size_token: "isSizeToken token"
    using assms(2,3) by (auto simp: isSizeToken_def isNaN_def num_ge_def num_le_def)
  then have "token \<in> set (filter isSizeToken (tokenize q))"
    using assms(1) by simp
  then obtain t ts where first: "filter isSizeToken (tokenize q) = t # ts"
    by (cases "filter isSizeToken (tokenize q)") auto
  then have "t \<in> set (filter isSizeToken (tokenize q))"
    by simp
  then have "t \<noteq> []"
    by (auto simp: tokenize_def)
  then have "detectedSize (parseQueryAndSize q None) \<noteq> None"
    using first by (simp add: detectedSize_in_text)
  then show ?thesis
    using size_token assms(1) by (simp add: scanTokens_filter terms_parseQueryAndSize)
qed

theorem size_token_by_numeric_prefix_witness:
  "parseQueryAndSize ''Wool 4runner shoes'' None
     = \<lparr> terms = [''wool''], detectedSize = Some ''4runner'' \<rparr>
   \<and> ''9th'' \<in> set (fst (scanTokens (tokenize ''wool runner 9th'') ([], [])))
   \<and> ''9th'' \<notin> set (terms (parseQueryAndSize ''wool runner 9th'' None))
   \<and> terms (parseQueryAndSize ''wool runner 9th'' None) = [''wool'', ''runner'']"
proof -
  have tok: "tokenize ''wool runner 9th'' = [''wool'', ''runner'', ''9th'']"
    by (simp add: tokenize_eval)
  have num: "parseFloat ''9th'' = Num 9"
    by (simp add: parseFloat_eval)
  have a: "parseQueryAndSize ''Wool 4runner shoes'' None
      = \<lparr> terms = [''wool''], detectedSize = Some ''4runner'' \<rparr>"
    by (simp add: parseQueryAndSize_def tokenize_eval isSizeToken_eval IGNORED_TERMS_def
        resolveSize_eval)
  have b: "terms (parseQueryAndSize ''wool runner 9th'' None) = [''wool'', ''runner'']"
    by (simp add: terms_parseQueryAndSize tok isSizeToken_eval IGNORED_TERMS_def)
  show ?thesis
    using size_token_by_numeric_prefix [of "''9th''" "''wool runner 9th''" 9 None] tok num a b
    by simp
qed

section \<open>The catalog cache\<close>

lemma fetch_fresh:
  assumes "productsCache st = Some snapshot" "now_check e - cacheTime st < CACHE_TTL_MS"
  shows "fetchAllProducts e st = (Inr snapshot, st)"
  using assms by (simp add: fetchAllProducts_def)

lemma fetch_stale_success:
  assumes "productsCache st = None \<or> CACHE_TTL_MS \<le> now_check e - cacheTime st"
    and "catalog e = Response status (Document d)" "ok status"
  shows "fetchAllProducts e st =
     (Inr (case d of Some ps \<Rightarrow> ps | None \<Rightarrow> []),
      st \<lparr> fetchCalls := fetchCalls st + 1,
           productsCache := Some (case d of Some ps \<Rightarrow> ps | None \<Rightarrow> []),
           cacheTime := now_store e \<rparr>)"
  using assms by (auto simp: fetchAllProducts_def Let_def)

lemma fetch_stale_failure:
  assumes "productsCache st = None \<or> CACHE_TTL_MS \<le> now_check e - cacheTime st"
    and "\<nexists>status d. catalog e = Response status (Document d) \<and> ok status"
  shows "\<exists>t. fetchAllProducts e st = (Inl t, st \<lparr> fetchCalls := fetchCalls st + 1 \<rparr>)"
proof (cases "catalog e")
  case (Rejected t)
  then show ?thesis using assms(1) by (auto simp: fetchAllProducts_def Let_def)
next
  case (Response status body)
  show ?thesis
  proof (cases "ok status")
    case True
    with Response assms(2) obtain msg where "body = Malformed msg"
      by (cases body) auto
    with True Response show ?thesis using assms(1) by (auto simp: fetchAllProducts_def Let_def)
  next
    case False
    with Response show ?thesis using assms(1) by (auto simp: fetchAllProducts_def Let_def)
  qed
qed

lemma fetch_stale_calls:
  assumes "productsCache st = None \<or> CACHE_TTL_MS \<le> now_check e - cacheTime st"
  shows "fetchCalls (snd (fetchAllProducts e st)) = fetchCalls st + 1"
proof (cases "\<exists>status d. catalog e = Response status (Document d) \<and> ok status")
  case True
  then show ?thesis using fetch_stale_success [OF assms] by auto
next
  case False
  then show ?thesis using fetch_stale_failure [OF assms] by auto
qed

lemmas fixture_eval = fixture_env_def initial_state_def CACHE_TTL_MS_def ok_def

text \<open>
  Claim C3 says that a call made when no snapshot exists, or when five minutes or
  more have passed, replaces the snapshot and the time stamp. A refresh whose request
  fails throws before either variable is assigned: from the initial state, with the
  endpoint answering 503, the call sends its one request and ends in an error, and
  there is still no snapshot and the time stamp is still 0.
\<close>

theorem failed_refresh_keeps_cache:
  "fetchAllProducts (fixture_env 1000 (Response 503 (Document None))) initial_state
     = (Inl (Error ''HTTP 503: Failed to fetch Allbirds products''), initial_state \<lparr> fetchCalls := 1 \<rparr>)
   \<and> productsCache (snd (fetchAllProducts (fixture_env 1000 (Response 503 (Document None))) initial_state))
     = None
   \<and> cacheTime (snd (fetchAllProducts (fixture_env 1000 (Response 503 (Document None))) initial_state))
     = 0"
  by (simp add: fetchAllProducts_def fixture_eval showNat.simps)


text \<open>
  Claim C3, amended. While a snapshot exists and less than five minutes have passed
  since it was stored, a call sends no request, returns the snapshot and leaves the
  state as it is. A call made when no snapshot exists, or when five minutes or more
  have passed, sends exactly one request; when the answer is a success with a
  readable body, the snapshot and the time stamp are replaced by the products read
  and the time of reading; otherwise the call ends in an error and the snapshot and
  the time stamp stay as they were.
\<close>

theorem cache_refresh_policy:
  "(productsCache st = Some snapshot \<and> now_check e - cacheTime st < CACHE_TTL_MS \<longrightarrow>
      fetchAllProducts e st = (Inr snapshot, st))
   \<and> (productsCache st = None \<or> CACHE_TTL_MS \<le> now_check e - cacheTime st \<longrightarrow>
        fetchCalls (snd (fetchAllProducts e st)) = fetchCalls st + 1
        \<and> (\<forall>status d. catalog e = Response status (Document d) \<and> ok status \<longrightarrow>
              fetchAllProducts e st =
                (Inr (case d of Some ps \<Rightarrow> ps | None \<Rightarrow> []),
                 st \<lparr> fetchCalls := fetchCalls st + 1,
                      productsCache := Some (case d of Some ps \<Rightarrow> ps | None \<Rightarrow> []),
                      cacheTime := now_store e \<rparr>))
        \<and> ((\<nexists>status d. catalog e = Response status (Document d) \<and> ok status) \<longrightarrow>
              (\<exists>t. fetchAllProducts e st = (Inl t, st \<lparr> fetchCalls := fetchCalls st + 1 \<rparr>))))"
  using fetch_fresh fetch_stale_success fetch_stale_failure fetch_stale_calls by blast

theorem cache_refresh_policy_witness:
  "fetchAllProducts (fixture_env 1000 (Response 200 (Document (Some fixture_catalog)))) initial_state
     = (Inr fixture_catalog,
        \<lparr> productsCache = Some fixture_catalog, cacheTime = 1000, fetchCalls = 1 \<rparr>)
   \<and> fetchAllProducts (fixture_env 300999 (Response 200 (Document (Some []))))
        \<lparr> productsCache = Some fixture_catalog, cacheTime = 1000, fetchCalls = 1 \<rparr>
     = (Inr fixture_catalog,
        \<lparr> productsCache = Some fixture_catalog, cacheTime = 1000, fetchCalls = 1 \<rparr>)
   \<and> fetchAllProducts (fixture_env 301000 (Response 200 (Document (Some []))))
        \<lparr> productsCache = Some fixture_catalog, cacheTime = 1000, fetchCalls = 1 \<rparr>
     = (Inr [], \<lparr> productsCache = Some [], cacheTime = 301000, fetchCalls = 2 \<rparr>)"
  using
    cache_refresh_policy [of initial_state "[]"
      "fixture_env 1000 (Response 200 (Document (Some fixture_catalog)))"]
    cache_refresh_policy [of "\<lparr> productsCache = Some fixture_catalog, cacheTime = 1000, fetchCalls = 1 \<rparr>"
      fixture_catalog "fixture_env 300999 (Response 200 (Document (Some [])))"]
    cache_refresh_policy [of "\<lparr> productsCache = Some fixture_catalog, cacheTime = 1000, fetchCalls = 1 \<rparr>"
      fixture_catalog "fixture_env 301000 (Response 200 (Document (Some [])))"]
  by (simp add: fixture_eval)

section \<open>The search and the tool handler\<close>

lemma genderFilter_filter: "genderFilter g ms = filter (genderKeeps g) ms"
  by (cases g rule: option.exhaust; simp add: genderFilter_def genderKeeps_def [abs_def] split: gender.splits)

lemma search_failure:
  assumes "fetchAllProducts e st = (Inl t, st')"
  shows "searchAllbirds e q sz g st = (Inl t, st')"
  using assms by (simp add: searchAllbirds_def Let_def)

lemma search_success:
  assumes "fetchAllProducts e st = (Inr allProducts, st')"
  shows "searchAllbirds e q sz g st =
     (Inr \<lparr> query = q,
            result_size = (case detectedSize (parseQueryAndSize q sz) of Some u \<Rightarrow> Some u | None \<Rightarrow> sz),
            result_gender = g,
            shoes = map (buildShoe e (detectedSize (parseQueryAndSize q sz)))
                      (take 5 (filter (passesFilters (parseQueryAndSize q sz) g) allProducts)),
            totalFound = length (filter (passesFilters (parseQueryAndSize q sz) g) allProducts),
            error = None \<rparr>,
      st')"
proof -
  have "(if truthy u then filter (sizeFilter (the u)) (genderFilter g (filter (termFilter ts) allProducts))
         else genderFilter g (filter (termFilter ts) allProducts))
        = filter (\<lambda>p. termFilter ts p \<and> genderKeeps g p \<and> sizeKeeps u p) allProducts" for u ts
    by (auto simp: genderFilter_filter sizeKeeps_def conj_commute intro: filter_cong)
  then show ?thesis
    using assms by (simp add: searchAllbirds_def Let_def passesFilters_def [abs_def])
qed

lemma handler_failure:
  assumes "searchAllbirds e q sz g st = (Inl t, st')"
  shows "handler e q sz g st =
     (\<lparr> structuredContent =
          \<lparr> query = q, result_size = sz, result_gender = g, shoes = [], totalFound = 0,
            error = Some (case t of Error msg \<Rightarrow> msg | NonError str \<Rightarrow> str) \<rparr>,
        isError = True \<rparr>,
      st')"
  using assms by (simp add: handler_def)

lemma handler_success:
  assumes "searchAllbirds e q sz g st = (Inr r, st')"
  shows "handler e q sz g st = (\<lparr> structuredContent = r, isError = False \<rparr>, st')"
  using assms by (simp add: handler_def)

lemma fetch_failure_outcome:
  assumes "productsCache st = None \<or> CACHE_TTL_MS \<le> now_check e - cacheTime st"
    and "(\<exists>t. catalog e = Rejected t) \<or> (\<exists>status body. catalog e = Response status body \<and> \<not> ok status)"
  shows "\<exists>t. fetchAllProducts e st = (Inl t, st \<lparr> fetchCalls := fetchCalls st + 1 \<rparr>)"
proof -
  have "\<nexists>status d. catalog e = Response status (Document d) \<and> ok status"
    using assms(2) by auto
  then show ?thesis by (rule fetch_stale_failure [OF assms(1)])
qed

text \<open>
  Claim C2: when the catalog has to be fetched and the fetch fails, by a rejected
  request or by a status outside 200 to 299, the handler returns a result whose
  \<open>shoes\<close> are empty, whose \<open>totalFound\<close> is 0 and whose \<open>error\<close> is a string, for every
  query, size and gender. The handler is a total function into results: whatever
  \<open>searchAllbirds\<close> throws is turned into such a result.
\<close>

theorem fetch_failure_is_error_result:
  assumes "productsCache st = None \<or> CACHE_TTL_MS \<le> now_check e - cacheTime st"
    and "(\<exists>t. catalog e = Rejected t) \<or> (\<exists>status body. catalog e = Response status body \<and> \<not> ok status)"
  shows "(\<exists>msg st'. handler e q sz g st =
            (\<lparr> structuredContent =
                 \<lparr> query = q, result_size = sz, result_gender = g, shoes = [], totalFound = 0,
                   error = Some msg \<rparr>,
               isError = True \<rparr>,
             st'))
         \<and> (\<forall>t st'. searchAllbirds e q sz g st = (Inl t, st') \<longrightarrow>
               shoes (structuredContent (fst (handler e q sz g st))) = []
               \<and> totalFound (structuredContent (fst (handler e q sz g st))) = 0
               \<and> error (structuredContent (fst (handler e q sz g st))) \<noteq> None)"
proof -
  obtain t where "fetchAllProducts e st = (Inl t, st \<lparr> fetchCalls := fetchCalls st + 1 \<rparr>)"
    using fetch_failure_outcome [OF assms] by blast
  then have "searchAllbirds e q sz g st = (Inl t, st \<lparr> fetchCalls := fetchCalls st + 1 \<rparr>)"
    by (rule search_failure)
  then have "handler e q sz g st =
     (\<lparr> structuredContent =
          \<lparr> query = q, result_size = sz, result_gender = g, shoes = [], totalFound = 0,
            error = Some (case t of Error msg \<Rightarrow> msg | NonError str \<Rightarrow> str) \<rparr>,
        isError = True \<rparr>,
      st \<lparr> fetchCalls := fetchCalls st + 1 \<rparr>)"
    by (rule handler_failure)
  then show ?thesis
    by (auto simp: handler_failure)
qed

theorem fetch_failure_is_error_result_witness:
  "handler (fixture_env 1000 (Response 503 (Document None))) ''wool runner'' (Some ''42'') (Some Men)
      initial_state
     = (\<lparr> structuredContent =
            \<lparr> query = ''wool runner'', result_size = Some ''42'', result_gender = Some Men,
              shoes = [], totalFound = 0,
              error = Some ''HTTP 503: Failed to fetch Allbirds products'' \<rparr>,
          isError = True \<rparr>,
        initial_state \<lparr> fetchCalls := 1 \<rparr>)"
proof -
  have "fetchAllProducts (fixture_env 1000 (Response 503 (Document None))) initial_state
     = (Inl (Error ''HTTP 503: Failed to fetch Allbirds products''), initial_state \<lparr> fetchCalls := 1 \<rparr>)"
    by (simp add: fetchAllProducts_def fixture_eval showNat.simps)
  then have "searchAllbirds (fixture_env 1000 (Response 503 (Document None))) ''wool runner''
      (Some ''42'') (Some Men) initial_state
     = (Inl (Error ''HTTP 503: Failed to fetch Allbirds products''), initial_state \<lparr> fetchCalls := 1 \<rparr>)"
    by (rule search_failure)
  moreover have "productsCache initial_state = None"
    by (simp add: initial_state_def)
  moreover have "catalog (fixture_env 1000 (Response 503 (Document None))) = Response 503 (Document None)"
    "\<not> ok 503"
    by (simp_all add: fixture_eval)
  ultimately show ?thesis
    using fetch_failure_is_error_result [of initial_state
        "fixture_env 1000 (Response 503 (Document None))" "''wool runner''" "Some ''42''" "Some Men"]
    by (auto simp: handler_failure)
qed


text \<open>
  Claim C4: when the catalog is obtained, \<open>totalFound\<close> is the number of products of
  the catalog that pass the term, gender and size filters, counted before the
  truncation; at most 5 shoes are returned; and they are built, in catalog order,
  from the first \<open>min(totalFound, 5)\<close> products that pass.
\<close>

theorem total_found_before_truncation:
  assumes "fetchAllProducts e st = (Inr allProducts, st')"
  shows "\<exists>r. handler e q sz g st = (\<lparr> structuredContent = r, isError = False \<rparr>, st')
     \<and> totalFound r = length (filter (passesFilters (parseQueryAndSize q sz) g) allProducts)
     \<and> length (shoes r) \<le> 5
     \<and> shoes r = map (buildShoe e (detectedSize (parseQueryAndSize q sz)))
         (take (min (totalFound r) 5) (filter (passesFilters (parseQueryAndSize q sz) g) allProducts))
     \<and> map name (shoes r)
         = map title (take 5 (filter (passesFilters (parseQueryAndSize q sz) g) allProducts))
     \<and> error r = None"
proof -
  have name: "name (buildShoe e u p) = title p" for u p
    by (simp add: buildShoe_def Let_def)
  show ?thesis
    using handler_success [OF search_success [OF assms]]
    by (simp add: name comp_def min_def)
qed

lemma parse_wool_runner:
  "parseQueryAndSize ''wool runner'' None = \<lparr> terms = [''wool'', ''runner''], detectedSize = None \<rparr>"
  by (simp add: parseQueryAndSize_def tokenize_eval isSizeToken_eval IGNORED_TERMS_def)

lemmas termFilter_eval =
  termFilter_def termMatches_searchFrom toLowerCase_def toLowerChar_def regex_eval

lemma filter_wool_runner:
  "filter (passesFilters \<lparr> terms = [''wool'', ''runner''], detectedSize = None \<rparr> None) fixture_catalog
     = [bare ''Men's Wool Runner'' ''mens-wool-runners'',
        bare ''Women's Wool Runner'' ''womens-wool-runners'',
        bare ''Wool Runner Mizzle'' ''wool-runner-mizzles'',
        bare ''Wool Runner Fluff'' ''wool-runner-fluffs'',
        bare ''Wool Runner Go'' ''wool-runner-go'',
        bare ''Wool Runner Up'' ''wool-runner-up'']"
  by (simp add: fixture_catalog_def passesFilters_def genderKeeps_def sizeKeeps_def truthy_def
      bare_def termFilter_eval)

theorem total_found_before_truncation_witness:
  "\<exists>r st'. handler (fixture_env 1000 (Response 200 (Document (Some fixture_catalog)))) ''wool runner''
        None None initial_state = (\<lparr> structuredContent = r, isError = False \<rparr>, st')
     \<and> totalFound r = 6
     \<and> map name (shoes r) = [''Men's Wool Runner'', ''Women's Wool Runner'', ''Wool Runner Mizzle'',
          ''Wool Runner Fluff'', ''Wool Runner Go'']"
proof -
  have "fetchAllProducts (fixture_env 1000 (Response 200 (Document (Some fixture_catalog)))) initial_state
     = (Inr fixture_catalog,
        \<lparr> productsCache = Some fixture_catalog, cacheTime = 1000, fetchCalls = 1 \<rparr>)"
    by (simp add: fetchAllProducts_def fixture_eval)
  from total_found_before_truncation [OF this, of "''wool runner''" None None]
  show ?thesis
    unfolding parse_wool_runner filter_wool_runner by (auto simp: bare_def)
qed


text \<open>
  Claim C8: the \<open>size\<close> of the response depends on the outcome. When the search
  succeeds it is the resolved size if there is one, and the size parameter
  otherwise; when the handler catches a failure it is the size parameter as the
  caller gave it. For the size parameter \<open>42\<close> the first is \<open>9\<close> and the second is \<open>42\<close>.
\<close>

theorem size_field_by_outcome:
  "(fetchAllProducts e st = (Inr ps, st') \<longrightarrow>
      result_size (structuredContent (fst (handler e q sz g st)))
        = (case detectedSize (parseQueryAndSize q sz) of Some u \<Rightarrow> Some u | None \<Rightarrow> sz))
   \<and> (fetchAllProducts e st = (Inl t, st') \<longrightarrow>
        result_size (structuredContent (fst (handler e q sz g st))) = sz)
   \<and> result_size (structuredContent (fst (handler
        (fixture_env 1000 (Response 200 (Document (Some fixture_catalog))))
        ''wool runner'' (Some ''42'') None initial_state))) = Some ''9''
   \<and> result_size (structuredContent (fst (handler
        (fixture_env 1000 (Response 503 (Document None)))
        ''wool runner'' (Some ''42'') None initial_state))) = Some ''42''"
proof -
  have ok: "result_size (structuredContent (fst (handler e q sz g st)))
        = (case detectedSize (parseQueryAndSize q sz) of Some u \<Rightarrow> Some u | None \<Rightarrow> sz)"
    if "fetchAllProducts e st = (Inr ps, st')" for e st ps st' q sz g
    using handler_success [OF search_success [OF that]] by simp
  have bad: "result_size (structuredContent (fst (handler e q sz g st))) = sz"
    if "fetchAllProducts e st = (Inl t, st')" for e st t st' q sz g
    using handler_failure [OF search_failure [OF that]] by simp
  have up: "fetchAllProducts (fixture_env 1000 (Response 200 (Document (Some fixture_catalog))))
      initial_state
     = (Inr fixture_catalog,
        \<lparr> productsCache = Some fixture_catalog, cacheTime = 1000, fetchCalls = 1 \<rparr>)"
    by (simp add: fetchAllProducts_def fixture_eval)
  have down: "fetchAllProducts (fixture_env 1000 (Response 503 (Document None))) initial_state
     = (Inl (Error ''HTTP 503: Failed to fetch Allbirds products''), initial_state \<lparr> fetchCalls := 1 \<rparr>)"
    by (simp add: fetchAllProducts_def fixture_eval showNat.simps)
  have "resolveSize ''42'' = ''9''"
    by (simp add: resolveSize_eval)
  then show ?thesis
    using ok bad ok [OF up, of "''wool runner''" "Some ''42''" None]
      bad [OF down, of "''wool runner''" "Some ''42''" None]
    by (simp add: detectedSize_explicit)
qed

theorem size_field_by_outcome_witness:
  "result_size (structuredContent (fst (handler
      (fixture_env 1000 (Response 200 (Document (Some fixture_catalog))))
      ''runner 42'' None None initial_state))) = Some ''9''
   \<and> result_size (structuredContent (fst (handler
      (fixture_env 1000 (Rejected (Error ''fetch failed'')))
      ''runner 42'' None None initial_state))) = None"
proof -
  have up: "fetchAllProducts (fixture_env 1000 (Response 200 (Document (Some fixture_catalog))))
      initial_state
     = (Inr fixture_catalog,
        \<lparr> productsCache = Some fixture_catalog, cacheTime = 1000, fetchCalls = 1 \<rparr>)"
    by (simp add: fetchAllProducts_def fixture_eval)
  have down: "fetchAllProducts (fixture_env 1000 (Rejected (Error ''fetch failed''))) initial_state
     = (Inl (Error ''fetch failed''), initial_state \<lparr> fetchCalls := 1 \<rparr>)"
    by (simp add: fetchAllProducts_def fixture_eval)
  have size: "detectedSize (parseQueryAndSize ''runner 42'' None) = Some ''9''"
    by (simp add: detectedSize_in_text tokenize_eval isSizeToken_eval resolveSize_eval)
  show ?thesis
    using size_field_by_outcome [where
        e = "fixture_env 1000 (Response 200 (Document (Some fixture_catalog)))"
        and st = initial_state and ps = fixture_catalog
        and st' = "\<lparr> productsCache = Some fixture_catalog, cacheTime = 1000, fetchCalls = 1 \<rparr>"
        and q = "''runner 42''" and sz = None and g = None]
      size_field_by_outcome [where
        e = "fixture_env 1000 (Rejected (Error ''fetch failed''))"
        and st = initial_state and t = "Error ''fetch failed''"
        and st' = "initial_state \<lparr> fetchCalls := 1 \<rparr>"
        and q = "''runner 42''" and sz = None and g = None]
      up down size
    by simp
qed

section \<open>The variant behind the price\<close>

lemma toFixed0_of_nat:
  "toFixed0 large (Num (of_nat n)) =
     (if (10 :: rat) ^ 21 \<le> of_nat n then large (of_nat n) else showNat n)"
proof -
  have "\<lfloor>(of_nat n :: rat) + 1 / 2\<rfloor> = int n"
    by (simp add: floor_eq_iff)
  then show ?thesis
    by (simp add: toFixed0_def)
qed

lemma toFixed0_numeral:
  "toFixed0 large (Num (numeral w)) =
     (if (10 :: rat) ^ 21 \<le> numeral w then large (numeral w) else showNat (numeral w))"
  using toFixed0_of_nat [of large "numeral w"] by simp

lemma find_first_match:
  assumes "\<exists>v \<in> set vs. P v"
  shows "\<exists>before v after. vs = before @ v # after \<and> (\<forall>w \<in> set before. \<not> P w) \<and> P v
           \<and> find P vs = Some v"
  using assms
proof (induction vs)
  case Nil
  then show ?case by simp
next
  case (Cons a vs)
  show ?case
  proof (cases "P a")
    case True
    then have "a # vs = [] @ a # vs \<and> (\<forall>w \<in> set []. \<not> P w) \<and> P a \<and> find P (a # vs) = Some a"
      by simp
    then show ?thesis by blast
  next
    case False
    with Cons.prems have "\<exists>v \<in> set vs. P v" by auto
    then obtain before v after where
      m: "vs = before @ v # after" "\<forall>w \<in> set before. \<not> P w" "P v" "find P vs = Some v"
      using Cons.IH by blast
    with False have "a # vs = (a # before) @ v # after \<and> (\<forall>w \<in> set (a # before). \<not> P w) \<and> P v
        \<and> find P (a # vs) = Some v"
      by simp
    then show ?thesis by blast
  qed
qed

text \<open>
  Claim C10: with a resolved size, the size filter keeps a product when some variant
  has the size as its title, case ignored, and is not marked unavailable, while the
  price of the shoe is taken from the first variant with that title, whatever its
  availability. A product whose first variant of size 9 is unavailable and whose
  second variant of size 9 is available passes the filter by the second and shows
  the price of the first.
\<close>

theorem price_variant_ignores_availability:
  assumes "u \<noteq> []"
  shows "(sizeFilter u p \<longleftrightarrow>
            (\<exists>v \<in> set (variants p).
               toLowerCase (variant_title v) = toLowerCase u \<and> available v \<noteq> Some False))
         \<and> (sizeFilter u p \<longrightarrow>
              (\<exists>before v after.
                 variants p = before @ v # after
                 \<and> (\<forall>w \<in> set before. toLowerCase (variant_title w) \<noteq> toLowerCase u)
                 \<and> toLowerCase (variant_title v) = toLowerCase u
                 \<and> targetVariant (Some u) p = Some v
                 \<and> price (buildShoe e (Some u) p)
                     = (if variant_price v \<noteq> []
                        then ''$'' @ toFixed0 (exponential e) (parseFloat (variant_price v))
                        else ''See price'')))
         \<and> sizeFilter ''9'' fixture_duplicate_size
         \<and> targetVariant (Some ''9'') fixture_duplicate_size
             = Some \<lparr> variant_title = ''9'', variant_price = ''98.00'', available = Some False \<rparr>
         \<and> price (buildShoe e (Some ''9'') fixture_duplicate_size) = ''$98''"
proof -
  have a: "sizeFilter u p \<longleftrightarrow>
      (\<exists>v \<in> set (variants p).
         toLowerCase (variant_title v) = toLowerCase u \<and> available v \<noteq> Some False)"
    by (simp add: sizeFilter_def list_ex_iff)
  have b: "\<exists>before v after.
         variants p = before @ v # after
         \<and> (\<forall>w \<in> set before. toLowerCase (variant_title w) \<noteq> toLowerCase u)
         \<and> toLowerCase (variant_title v) = toLowerCase u
         \<and> targetVariant (Some u) p = Some v
         \<and> price (buildShoe e (Some u) p)
             = (if variant_price v \<noteq> []
                then ''$'' @ toFixed0 (exponential e) (parseFloat (variant_price v))
                else ''See price'')"
    if "sizeFilter u p"
  proof -
    from that a have "\<exists>v \<in> set (variants p). toLowerCase (variant_title v) = toLowerCase u"
      by blast
    from find_first_match [OF this] obtain before v after where
      m: "variants p = before @ v # after"
        "\<forall>w \<in> set before. toLowerCase (variant_title w) \<noteq> toLowerCase u"
        "toLowerCase (variant_title v) = toLowerCase u"
        "find (\<lambda>v. toLowerCase (variant_title v) = toLowerCase u) (variants p) = Some v"
      by blast
    have t: "targetVariant (Some u) p = Some v"
      using m(4) assms by (simp add: targetVariant_def truthy_def)
    have "price (buildShoe e (Some u) p)
        = (if variant_price v \<noteq> []
           then ''$'' @ toFixed0 (exponential e) (parseFloat (variant_price v))
           else ''See price'')"
      by (simp add: buildShoe_def Let_def t)
    with m t show ?thesis by blast
  qed
  have c: "sizeFilter ''9'' fixture_duplicate_size"
    by (simp add: sizeFilter_def fixture_duplicate_size_def toLowerCase_def toLowerChar_def)
  have d: "targetVariant (Some ''9'') fixture_duplicate_size
      = Some \<lparr> variant_title = ''9'', variant_price = ''98.00'', available = Some False \<rparr>"
    by (simp add: targetVariant_def truthy_def fixture_duplicate_size_def toLowerCase_def
        toLowerChar_def)
  have "numberValue False 9800 100 = Num 98"
    using numberValue_exact [of 9800 100 6 "98 * 2 ^ 46" False] by (simp add: pow2_def)
  then have "parseFloat ''98.00'' = Num 98"
    by (simp add: parseFloat_eval)
  then have f: "price (buildShoe e (Some ''9'') fixture_duplicate_size) = ''$98''"
    by (simp add: buildShoe_def Let_def d toFixed0_numeral showNat.simps)
  show ?thesis
    using a b c d f by blast
qed

theorem price_variant_ignores_availability_witness:
  "sizeFilter ''9'' fixture_duplicate_size
   \<and> (\<exists>v \<in> set (variants fixture_duplicate_size).
         toLowerCase (variant_title v) = toLowerCase ''9'' \<and> available v \<noteq> Some False)
   \<and> map price (shoes (structuredContent (fst (handler
        (fixture_env 1000 (Response 200 (Document (Some [fixture_duplicate_size]))))
        ''wool'' (Some ''9'') None initial_state)))) = [''$98'']"
proof -
  let ?e = "fixture_env 1000 (Response 200 (Document (Some [fixture_duplicate_size])))"
  have nonempty: "''9'' \<noteq> []" by simp
  note fact = price_variant_ignores_availability [OF nonempty, of fixture_duplicate_size ?e]
  have up: "fetchAllProducts ?e initial_state
     = (Inr [fixture_duplicate_size],
        \<lparr> productsCache = Some [fixture_duplicate_size], cacheTime = 1000, fetchCalls = 1 \<rparr>)"
    by (simp add: fetchAllProducts_def fixture_eval Let_def)
  have parsed: "parseQueryAndSize ''wool'' (Some ''9'')
      = \<lparr> terms = [''wool''], detectedSize = Some ''9'' \<rparr>"
    by (simp add: parseQueryAndSize_def tokenize_eval isSizeToken_eval IGNORED_TERMS_def
        resolveSize_eval)
  have sf: "sizeFilter ''9'' fixture_duplicate_size"
    using fact by blast
  have ex: "\<exists>v \<in> set (variants fixture_duplicate_size).
      toLowerCase (variant_title v) = toLowerCase ''9'' \<and> available v \<noteq> Some False"
    using fact by blast
  have pr: "price (buildShoe ?e (Some ''9'') fixture_duplicate_size) = ''$98''"
    using fact by blast
  have "termFilter [''wool''] fixture_duplicate_size"
    by (simp add: fixture_duplicate_size_def termFilter_eval)
  then have pass: "passesFilters \<lparr> terms = [''wool''], detectedSize = Some ''9'' \<rparr> None
      fixture_duplicate_size"
    using sf by (simp add: passesFilters_def genderKeeps_def sizeKeeps_def truthy_def)
  have "map price (shoes (structuredContent (fst (handler ?e ''wool'' (Some ''9'') None initial_state))))
      = [''$98'']"
    using handler_success [OF search_success [OF up], of "''wool''" "Some ''9''" None] pass pr
    by (simp add: parsed)
  then show ?thesis
    using sf ex by blast
qed

end
